theory Spec2Isabelle
  imports Main "HOL-Library.Sublist" "HOL-Library.Multiset" "HOL-Library.Word"
begin

unbundle bit_operations_syntax

section \<open>Package statistics with a freshness-validated cache\<close>

text \<open>
  A shallow embedding of the Go packages \<^verbatim>\<open>internal/cache\<close> (\<^verbatim>\<open>cache.go\<close>),
  \<^verbatim>\<open>internal/progress\<close> (\<^verbatim>\<open>progress.go\<close>) and \<^verbatim>\<open>internal/app\<close> (\<^verbatim>\<open>app.go\<close>,
  \<^verbatim>\<open>download.go\<close>, \<^verbatim>\<open>utils.go\<close>).

  \<^item> Go strings are byte sequences: \<^typ>\<open>string\<close>. A slice is a list (a nil slice and an
    empty one are the same list).
  \<^item> Go's \<^verbatim>\<open>int\<close> is modelled by \<^typ>\<open>int\<close>: the only arithmetic on it is the increment
    of a per-package counter, which is bounded by the number of scanned lines.
  \<^item> A \<^verbatim>\<open>map[string]int\<close> is a partial function; the order in which \<^verbatim>\<open>range\<close>
    visits its keys is chosen by the Go runtime and is an explicit input.
  \<^item> A \<^verbatim>\<open>time.Time\<close> is an instant: nanoseconds since Go's zero time (January 1,
    year 1, UTC), so \<^verbatim>\<open>IsZero\<close> is equality with 0. A \<^verbatim>\<open>time.Duration\<close> is a
    count of nanoseconds.
  \<^item> An \<^verbatim>\<open>error\<close> result is a value of the datatype \<open>error\<close>; functions that
    can fail return a sum with \<open>Inl\<close> for the error. A function that can panic has
    an \<open>outcome\<close>: it returns a value or it panics.
  \<^item> The file system is a map from paths to contents, passed in and returned.
  \<^item> The remote server, the cancellation context, the clock, the lock and the I/O
    faults of one invocation are collected in a record of inputs (\<open>env\<close>); the
    routines of \<^verbatim>\<open>encoding/json\<close>, whose code is not part of the repository, are a
    record of functions (\<open>stdlib\<close>).
  \<^item> Log output and the text of the progress display are not modelled. The request constructor
    \<^verbatim>\<open>http.NewRequestWithContext\<close> is taken to succeed (the URL is well formed).
\<close>

subsection \<open>Data model (cache.go)\<close>

record PackageStats =
  Name :: string
  FileCount :: int

record CacheEntry =
  Architecture :: string
  Stats :: "PackageStats list"
  Timestamp :: int
  ETag :: string
  LastModified :: string
  URL :: string
  Checksum :: string

datatype error =
    ErrNotExist
  | CorruptCacheRemoved
  | CacheExpired
  | RenameFailed string
  | NotModifiedNoCache
  | NotFound404 string
  | HTTPStatus int string
  | Canceled
  | DeadlineExceeded
  | NilResponse
  | LibError string

text \<open>
  \<open>ErrNotExist\<close> is the error of \<^verbatim>\<open>os.ReadFile\<close> on a missing file;
  \<open>CorruptCacheRemoved\<close>, \<open>CacheExpired\<close>, \<open>RenameFailed\<close>, \<open>NotModifiedNoCache\<close>,
  \<open>NotFound404\<close> and \<open>HTTPStatus\<close> are the errors the repository creates with
  \<^verbatim>\<open>fmt.Errorf\<close>; \<open>Canceled\<close> and \<open>DeadlineExceeded\<close> are the two values of
  \<^verbatim>\<open>ctx.Err()\<close>; \<open>LibError\<close> stands for any other error a library call returns
  (transport, gzip, scanner, JSON, file I/O, lock). \<open>NilResponse\<close> marks the nil
  response that \<^verbatim>\<open>GetRequestWithRetry\<close> would hand back after zero attempts.
\<close>

subsection \<open>String routines of the standard library\<close>

text \<open>
  \<^verbatim>\<open>strings.TrimSpace\<close> removes leading and trailing Unicode white space. On bytes it
  removes leading and trailing UTF-8 encodings of the code points with the White_Space
  property (U+0009 to U+000D, U+0020, U+0085, U+00A0, U+1680, U+2000 to U+200A, U+2028,
  U+2029, U+202F, U+205F, U+3000); any other byte sequence decodes to a rune that is
  not a space and stops the trimming.
\<close>

definition space_encodings :: "string list" where
  "space_encodings =
     [[CHR 0x09], [CHR 0x0A], [CHR 0x0B], [CHR 0x0C], [CHR 0x0D], [CHR 0x20],
      [CHR 0xC2, CHR 0x85], [CHR 0xC2, CHR 0xA0],
      [CHR 0xE1, CHR 0x9A, CHR 0x80],
      [CHR 0xE2, CHR 0x80, CHR 0x80], [CHR 0xE2, CHR 0x80, CHR 0x81],
      [CHR 0xE2, CHR 0x80, CHR 0x82], [CHR 0xE2, CHR 0x80, CHR 0x83],
      [CHR 0xE2, CHR 0x80, CHR 0x84], [CHR 0xE2, CHR 0x80, CHR 0x85],
      [CHR 0xE2, CHR 0x80, CHR 0x86], [CHR 0xE2, CHR 0x80, CHR 0x87],
      [CHR 0xE2, CHR 0x80, CHR 0x88], [CHR 0xE2, CHR 0x80, CHR 0x89],
      [CHR 0xE2, CHR 0x80, CHR 0x8A],
      [CHR 0xE2, CHR 0x80, CHR 0xA8], [CHR 0xE2, CHR 0x80, CHR 0xA9],
      [CHR 0xE2, CHR 0x80, CHR 0xAF], [CHR 0xE2, CHR 0x81, CHR 0x9F],
      [CHR 0xE3, CHR 0x80, CHR 0x80]]"

definition space_bytes :: "char set" where
  "space_bytes = (\<Union>p \<in> set space_encodings. set p)"

lemma space_encodings_nonempty: "p \<in> set space_encodings \<Longrightarrow> p \<noteq> []"
  by (auto simp: space_encodings_def)

function TrimLeft :: "string \<Rightarrow> string" where
  "TrimLeft s =
     (case find (\<lambda>p. prefix p s) space_encodings of
        Some p \<Rightarrow> TrimLeft (drop (length p) s)
      | None \<Rightarrow> s)"
  by pat_completeness auto
termination
proof (relation "measure length")
  fix s p
  assume "find (\<lambda>p. prefix p s) space_encodings = Some p"
  then have "p \<in> set space_encodings" "prefix p s"
    by (auto simp: find_Some_iff)
  then have "p \<noteq> []" "length p \<le> length s"
    by (auto simp: space_encodings_nonempty prefix_length_le)
  then show "(drop (length p) s, s) \<in> measure length"
    by (cases s) auto
qed simp

function TrimRight :: "string \<Rightarrow> string" where
  "TrimRight s =
     (case find (\<lambda>p. suffix p s) space_encodings of
        Some p \<Rightarrow> TrimRight (take (length s - length p) s)
      | None \<Rightarrow> s)"
  by pat_completeness auto
termination
proof (relation "measure length")
  fix s p
  assume "find (\<lambda>p. suffix p s) space_encodings = Some p"
  then have "p \<in> set space_encodings" "suffix p s"
    by (auto simp: find_Some_iff)
  then have "p \<noteq> []" "length p \<le> length s"
    by (auto simp: space_encodings_nonempty suffix_length_le)
  then show "(take (length s - length p) s, s) \<in> measure length"
    by (cases s) auto
qed simp

declare TrimLeft.simps [simp del] TrimRight.simps [simp del]

definition TrimSpace :: "string \<Rightarrow> string" where
  "TrimSpace s = TrimRight (TrimLeft s)"

text \<open>\<^verbatim>\<open>strings.HasPrefix(s, p)\<close>.\<close>

definition HasPrefix :: "string \<Rightarrow> string \<Rightarrow> bool" where
  "HasPrefix s p = prefix p s"

text \<open>\<^verbatim>\<open>strings.Index(s, sub)\<close>: the index of the first occurrence of \<open>sub\<close>, or -1.\<close>

fun Index :: "string \<Rightarrow> string \<Rightarrow> int" where
  "Index s sub =
     (if prefix sub s then 0
      else (case s of
              [] \<Rightarrow> - 1
            | _ # t \<Rightarrow> (let r = Index t sub in if r < 0 then - 1 else r + 1)))"

declare Index.simps [simp del]

text \<open>\<^verbatim>\<open>strings.Split(s, sep)\<close> for a separator of one byte (the source splits at
  \<^verbatim>\<open>","\<close>): the pieces between the separators; a string without separator is the
  only piece.\<close>

fun Split :: "string \<Rightarrow> char \<Rightarrow> string list" where
  "Split [] sep = [[]]"
| "Split (c # cs) sep =
     (if c = sep then [] # Split cs sep
      else (case Split cs sep of
              p # ps \<Rightarrow> (c # p) # ps
            | [] \<Rightarrow> [[c]]))"

text \<open>\<^verbatim>\<open>fmt.Sprintf("%x", digest)\<close>: two lower-case hexadecimal digits per byte.\<close>

definition hex_digit :: "nat \<Rightarrow> char" where
  "hex_digit n = ''0123456789abcdef'' ! (n mod 16)"

definition Sprintf_x :: "string \<Rightarrow> string" where
  "Sprintf_x bs =
     concat (map (\<lambda>b. [hex_digit (of_char b div 16), hex_digit (of_char b mod 16)]) bs)"

text \<open>\<^verbatim>\<open>Time.Sub\<close> saturates at the largest and smallest \<^verbatim>\<open>Duration\<close> (a signed
  64-bit count of nanoseconds); \<^verbatim>\<open>time.Since(t)\<close> is \<^verbatim>\<open>time.Now().Sub(t)\<close>, with the
  clock reading \<open>now\<close> an input.\<close>

definition maxDuration :: int where
  "maxDuration = 2 ^ 63 - 1"

definition minDuration :: int where
  "minDuration = - (2 ^ 63)"

definition Sub :: "int \<Rightarrow> int \<Rightarrow> int" where
  "Sub t u =
     (let d = t - u in
      if d > maxDuration then maxDuration
      else if d < minDuration then minDuration
      else d)"

definition Since :: "int \<Rightarrow> int \<Rightarrow> int" where
  "Since now t = Sub now t"

text \<open>The routines of \<^verbatim>\<open>encoding/json\<close> that \<^verbatim>\<open>cache.go\<close> calls:
  \<^verbatim>\<open>json.Marshal\<close> of a statistics slice, \<^verbatim>\<open>Encoder.Encode\<close> (indented) of a cache
  entry, and \<^verbatim>\<open>json.Unmarshal\<close> into a cache entry (\<open>None\<close> when it returns an
  error).\<close>

record stdlib =
  json_Marshal :: "PackageStats list \<Rightarrow> error + string"
  json_Encode :: "CacheEntry \<Rightarrow> error + string"
  json_Unmarshal :: "string \<Rightarrow> CacheEntry option"

text \<open>\<^verbatim>\<open>md5.Sum\<close> (RFC 1321): the message is padded to a multiple of 64 bytes and
  consumed in blocks of sixteen little-endian 32-bit words; each block runs 64 steps on
  the four-word state.\<close>

definition md5_K :: "32 word list" where
  "md5_K = [0xd76aa478, 0xe8c7b756, 0x242070db, 0xc1bdceee, 0xf57c0faf, 0x4787c62a, 0xa8304613, 0xfd469501, 0x698098d8, 0x8b44f7af, 0xffff5bb1, 0x895cd7be, 0x6b901122, 0xfd987193, 0xa679438e, 0x49b40821, 0xf61e2562, 0xc040b340, 0x265e5a51, 0xe9b6c7aa, 0xd62f105d, 0x02441453, 0xd8a1e681, 0xe7d3fbc8, 0x21e1cde6, 0xc33707d6, 0xf4d50d87, 0x455a14ed, 0xa9e3e905, 0xfcefa3f8, 0x676f02d9, 0x8d2a4c8a, 0xfffa3942, 0x8771f681, 0x6d9d6122, 0xfde5380c, 0xa4beea44, 0x4bdecfa9, 0xf6bb4b60, 0xbebfbc70, 0x289b7ec6, 0xeaa127fa, 0xd4ef3085, 0x04881d05, 0xd9d4d039, 0xe6db99e5, 0x1fa27cf8, 0xc4ac5665, 0xf4292244, 0x432aff97, 0xab9423a7, 0xfc93a039, 0x655b59c3, 0x8f0ccc92, 0xffeff47d, 0x85845dd1, 0x6fa87e4f, 0xfe2ce6e0, 0xa3014314, 0x4e0811a1, 0xf7537e82, 0xbd3af235, 0x2ad7d2bb, 0xeb86d391]"

definition md5_S :: "nat list" where
  "md5_S = [7, 12, 17, 22, 7, 12, 17, 22, 7, 12, 17, 22, 7, 12, 17, 22,
            5, 9, 14, 20, 5, 9, 14, 20, 5, 9, 14, 20, 5, 9, 14, 20,
            4, 11, 16, 23, 4, 11, 16, 23, 4, 11, 16, 23, 4, 11, 16, 23,
            6, 10, 15, 21, 6, 10, 15, 21, 6, 10, 15, 21, 6, 10, 15, 21]"

type_synonym md5_state = "32 word \<times> 32 word \<times> 32 word \<times> 32 word"

definition md5_step :: "32 word list \<Rightarrow> md5_state \<Rightarrow> nat \<Rightarrow> md5_state" where
  "md5_step M st i =
     (case st of (a, b, c, d) \<Rightarrow>
        (let f = (if i < 16 then (b AND c) OR (NOT b AND d)
                  else if i < 32 then (d AND b) OR (NOT d AND c)
                  else if i < 48 then b XOR c XOR d
                  else c XOR (b OR NOT d));
             g = (if i < 16 then i
                  else if i < 32 then (5 * i + 1) mod 16
                  else if i < 48 then (3 * i + 5) mod 16
                  else (7 * i) mod 16)
         in (d, b + word_rotl (md5_S ! i) (f + a + md5_K ! i + M ! g), b, c)))"

definition md5_block :: "md5_state \<Rightarrow> 32 word list \<Rightarrow> md5_state" where
  "md5_block st M =
     (case st of (a0, b0, c0, d0) \<Rightarrow>
        (case foldl (md5_step M) st [0..<64] of (a, b, c, d) \<Rightarrow>
           (a0 + a, b0 + b, c0 + c, d0 + d)))"

definition le_bytes :: "nat \<Rightarrow> int \<Rightarrow> int list" where
  "le_bytes k n = map (\<lambda>i. (n div 256 ^ i) mod 256) [0..<k]"

definition md5_pad :: "int list \<Rightarrow> int list" where
  "md5_pad bs = bs @ [128] @ replicate ((119 - length bs mod 64) mod 64) 0
                @ le_bytes 8 (8 * int (length bs))"

fun le_words :: "int list \<Rightarrow> 32 word list" where
  "le_words (b0 # b1 # b2 # b3 # rest) =
     of_int (b0 + 256 * b1 + 65536 * b2 + 16777216 * b3) # le_words rest"
| "le_words _ = []"

fun md5_blocks :: "md5_state \<Rightarrow> 32 word list \<Rightarrow> nat \<Rightarrow> md5_state" where
  "md5_blocks st ws 0 = st"
| "md5_blocks st ws (Suc n) = md5_blocks (md5_block st (take 16 ws)) (drop 16 ws) n"

definition md5_Sum :: "string \<Rightarrow> string" where
  "md5_Sum s =
     (let ws = le_words (md5_pad (map of_char s))
      in case md5_blocks (0x67452301, 0xefcdab89, 0x98badcfe, 0x10325476) ws (length ws div 16) of
           (a, b, c, d) \<Rightarrow>
             map char_of (concat (map (\<lambda>w. le_bytes 4 (uint w)) [a, b, c, d])))"


subsection \<open>Line parser and aggregation finalizer (utils.go)\<close>

text \<open>\<^verbatim>\<open>m[pkg]++\<close>: a missing key reads as zero.\<close>

definition incr :: "(string \<rightharpoonup> int) \<Rightarrow> string \<Rightarrow> (string \<rightharpoonup> int)" where
  "incr m pkg = m(pkg \<mapsto> (case m pkg of None \<Rightarrow> 0 | Some c \<Rightarrow> c) + 1)"

definition ProcessLine :: "string \<Rightarrow> (string \<rightharpoonup> int) \<Rightarrow> (string \<rightharpoonup> int)" where
  "ProcessLine line0 m =
     (let line = TrimSpace line0 in
      if line = [] \<or> HasPrefix line ''FILE'' then m
      else (let idx = Index line '' '' in
            if idx = - 1 then m
            else foldl (\<lambda>m' pkg0. (let pkg = TrimSpace pkg0 in
                                     if pkg \<noteq> [] then incr m' pkg else m'))
                   m (Split (TrimSpace (drop (nat (idx + 1)) line)) (CHR '',''))))"

text \<open>\<^verbatim>\<open>for k, v := range m { stats = append(stats, PackageStats{k, v}) }\<close>, where the
  runtime visits the keys in the order \<open>ks\<close>. \<open>range_order ks m\<close> says that \<open>ks\<close> is
  such an order: every key of \<open>m\<close> once.\<close>

definition range_entries :: "string list \<Rightarrow> (string \<rightharpoonup> int) \<Rightarrow> PackageStats list" where
  "range_entries ks m =
     concat (map (\<lambda>k. case m k of Some v \<Rightarrow> [\<lparr>Name = k, FileCount = v\<rparr>] | None \<Rightarrow> []) ks)"

definition range_order :: "string list \<Rightarrow> (string \<rightharpoonup> int) \<Rightarrow> bool" where
  "range_order ks m = (distinct ks \<and> set ks = dom m)"

text \<open>\<^verbatim>\<open>sort.Slice\<close> with the comparison \<open>lt\<close>. The library (Go 1.19 and later) sorts
  a slice of up to 12 elements by insertion: each element in turn is swapped towards
  the front while it is less than its left neighbour. \<open>sift\<close> is that inner loop on the
  reversed sorted prefix. For longer slices the library uses an unstable quicksort
  variant, and the documentation promises no stability; the properties proved below
  (ordered result, same elements) are those every \<^verbatim>\<open>sort.Slice\<close> guarantees.\<close>

fun sift :: "('a \<Rightarrow> 'a \<Rightarrow> bool) \<Rightarrow> 'a \<Rightarrow> 'a list \<Rightarrow> 'a list" where
  "sift lt x [] = [x]"
| "sift lt x (y # r) = (if lt x y then y # sift lt x r else x # y # r)"

definition sort_Slice :: "('a \<Rightarrow> 'a \<Rightarrow> bool) \<Rightarrow> 'a list \<Rightarrow> 'a list" where
  "sort_Slice lt xs = rev (foldl (\<lambda>racc x. sift lt x racc) [] xs)"

definition SortMap :: "string list \<Rightarrow> (string \<rightharpoonup> int) \<Rightarrow> PackageStats list" where
  "SortMap ks m =
     sort_Slice (\<lambda>a b. FileCount a > FileCount b) (range_entries ks m)"

text \<open>The finalizer as the specification words it, for comparison with \<open>SortMap\<close>: the
  entries in the order in which the names were first inserted, sorted by count
  descending with a stable sort.\<close>

definition stable_items :: "string list \<Rightarrow> (string \<rightharpoonup> int) \<Rightarrow> PackageStats list" where
  "stable_items inserted m = sort_key (\<lambda>p. - FileCount p) (range_entries inserted m)"

subsection \<open>Persistent cache store (cache.go)\<close>

type_synonym fs = "string \<rightharpoonup> string"

text \<open>\<^verbatim>\<open>LoadCache(file, ttl)\<close>, with the clock reading of \<^verbatim>\<open>time.Since\<close> as \<open>now\<close>.
  \<^verbatim>\<open>os.ReadFile\<close> fails on a missing file; \<^verbatim>\<open>os.Remove\<close> (whose error the code
  discards) deletes the file.\<close>

definition LoadCache :: "stdlib \<Rightarrow> int \<Rightarrow> string \<Rightarrow> int \<Rightarrow> fs \<Rightarrow> (error + CacheEntry) \<times> fs" where
  "LoadCache L now file ttl files =
     (case files file of
        None \<Rightarrow> (Inl ErrNotExist, files)
      | Some data \<Rightarrow>
          (case json_Unmarshal L data of
             None \<Rightarrow> (Inl CorruptCacheRemoved, files(file := None))
           | Some entry \<Rightarrow>
               if Since now (Timestamp entry) > ttl then (Inl CacheExpired, files)
               else (Inr entry, files)))"

text \<open>The I/O faults one call of \<^verbatim>\<open>SaveCache\<close> can meet: the error of \<^verbatim>\<open>os.Create\<close>,
  of the write inside \<^verbatim>\<open>Encode\<close>, of \<^verbatim>\<open>Sync\<close>, of \<^verbatim>\<open>Close\<close>, and whether the
  \<open>i\<close>-th \<^verbatim>\<open>os.Rename\<close> fails.\<close>

record io_faults =
  create_err :: "error option"
  write_err :: "error option"
  sync_err :: "error option"
  close_err :: "error option"
  rename_fails :: "nat \<Rightarrow> bool"

text \<open>\<^verbatim>\<open>for i := 0; i < 5; i++ { if os.Rename(tmp, file) == nil { return nil } ... }\<close>:
  true when one of the attempts \<open>i, ..., i + n - 1\<close> succeeds.\<close>

primrec rename_attempts :: "(nat \<Rightarrow> bool) \<Rightarrow> nat \<Rightarrow> nat \<Rightarrow> bool" where
  "rename_attempts fails i 0 = False"
| "rename_attempts fails i (Suc n) =
     (if \<not> fails i then True else rename_attempts fails (Suc i) n)"

text \<open>\<^verbatim>\<open>SaveCache(file, entry)\<close>. The entry is passed by pointer and its checksum is
  assigned, so the entry as the caller sees it afterwards is part of the result. The
  deferred \<^verbatim>\<open>os.Remove(tmp)\<close> runs on every return after the temporary file was
  created.\<close>

definition SaveCache :: "stdlib \<Rightarrow> io_faults \<Rightarrow> string \<Rightarrow> CacheEntry \<Rightarrow> fs \<Rightarrow> error option \<times> CacheEntry \<times> fs" where
  "SaveCache L F file entry files =
     (case json_Marshal L (Stats entry) of
        Inl e \<Rightarrow> (Some e, entry, files)
      | Inr data \<Rightarrow>
          (let entry' = entry\<lparr>Checksum := Sprintf_x (md5_Sum data)\<rparr>;
               tmp = file @ ''.tmp''
           in case create_err F of
                Some e \<Rightarrow> (Some e, entry', files)
              | None \<Rightarrow>
                  (let files1 = files(tmp \<mapsto> [])
                   in case json_Encode L entry' of
                        Inl e \<Rightarrow> (Some e, entry', files1(tmp := None))
                      | Inr doc \<Rightarrow>
                          (case write_err F of
                             Some e \<Rightarrow> (Some e, entry', files1(tmp := None))
                           | None \<Rightarrow>
                               (let files2 = files1(tmp \<mapsto> doc)
                                in case sync_err F of
                                     Some e \<Rightarrow> (Some e, entry', files2(tmp := None))
                                   | None \<Rightarrow>
                                       (case close_err F of
                                          Some e \<Rightarrow> (Some e, entry', files2(tmp := None))
                                        | None \<Rightarrow>
                                            if rename_attempts (rename_fails F) 0 5
                                            then (None, entry', (files2(file \<mapsto> doc))(tmp := None))
                                            else (Some (RenameFailed file), entry',
                                                  files2(tmp := None))))))))"

text \<open>\<^verbatim>\<open>CleanupStaleLock\<close>: whether the lock file's modification time is older than
  the limit is the input \<open>stale\<close>. \<^verbatim>\<open>ReleaseLock\<close> unlocks and removes the lock file.\<close>

definition CleanupStaleLock :: "bool \<Rightarrow> string \<Rightarrow> fs \<Rightarrow> fs" where
  "CleanupStaleLock stale file files =
     (if files file \<noteq> None \<and> stale then files(file := None) else files)"

text \<open>Opening the lock file creates it when it is missing.\<close>

definition lock_created :: "string \<Rightarrow> fs \<Rightarrow> fs" where
  "lock_created file files =
     files(file \<mapsto> (case files file of Some d \<Rightarrow> d | None \<Rightarrow> []))"

text \<open>\<^verbatim>\<open>AcquireLockWithContext(ctx, file, timeout)\<close>: the outcome of the acquisition
  (an I/O error of the lock file, a timeout or a cancellation while waiting, or success)
  is the input \<open>outcome\<close>; on success the lock file is in place.\<close>

definition AcquireLockWithContext :: "error option \<Rightarrow> string \<Rightarrow> fs \<Rightarrow> error option \<times> fs" where
  "AcquireLockWithContext outcome file files =
     (case outcome of
        Some e \<Rightarrow> (Some e, files)
      | None \<Rightarrow> (None, lock_created file files))"

definition ReleaseLock :: "string \<Rightarrow> fs \<Rightarrow> fs" where
  "ReleaseLock file files = files(file := None)"

subsection \<open>Progress display (progress.go)\<close>

text \<open>A call either returns or panics. A panic unwinds through the callers, running
  their deferred calls; nothing in the program recovers from it, so the program ends.\<close>

datatype 'a outcome = Returns 'a | Panics

text \<open>\<^verbatim>\<open>float64\<close> values are dyadic rationals, kept as fractions \<open>(p, q)\<close> with \<open>q > 0\<close>.
  \<open>float64\<close> rounds a fraction to the nearest value with a significand of 53 bits, ties
  to even. The exponent range is not limited: the values \<^verbatim>\<open>render\<close> forms from 64-bit
  integers are far inside it. \<open>bits n\<close> is the number of binary digits of \<open>n\<close> and
  \<open>exponent x\<close> the integer part of the binary logarithm of \<open>\<bar>x\<bar>\<close>.\<close>

type_synonym frac = "int \<times> int"

function bits :: "int \<Rightarrow> nat" where
  "bits n = (if n \<le> 0 then 0 else Suc (bits (n div 2)))"
  by pat_completeness auto
termination
  by (relation "measure nat") auto

declare bits.simps [simp del]

definition shift :: "frac \<Rightarrow> int \<Rightarrow> frac" where
  "shift x s =
     (if 0 \<le> s then (fst x * 2 ^ nat s, snd x) else (fst x, snd x * 2 ^ nat (- s)))"

definition round_even :: "frac \<Rightarrow> int" where
  "round_even x =
     (let f = fst x div snd x; r = fst x mod snd x
      in if 2 * r < snd x then f
         else if snd x < 2 * r then f + 1
         else if even f then f else f + 1)"

definition exponent :: "frac \<Rightarrow> int" where
  "exponent x =
     (let e = int (bits \<bar>fst x\<bar>) - int (bits (snd x));
          y = shift (\<bar>fst x\<bar>, snd x) (- e)
      in if fst y < snd y then e - 1 else e)"

definition float64 :: "frac \<Rightarrow> frac" where
  "float64 x =
     (if fst x = 0 then (0, 1)
      else (let e = exponent x
            in shift (round_even (shift x (52 - e)), 1) (e - 52)))"

text \<open>The conversion \<^verbatim>\<open>float64(n)\<close>, the quotient by a value other than zero, the
  product, and the conversion \<^verbatim>\<open>int(x)\<close>, which drops the fraction. (\<^verbatim>\<open>int(x)\<close> of a
  value outside the 64-bit range depends on the machine; \<^verbatim>\<open>render\<close> panics on every
  value it can give there, as it does on the exact one.)\<close>

definition float64_of_int :: "int \<Rightarrow> frac" where
  "float64_of_int n = float64 (n, 1)"

definition fdiv :: "frac \<Rightarrow> frac \<Rightarrow> frac" where
  "fdiv x y =
     float64 (if 0 < fst y then (fst x * snd y, snd x * fst y)
              else (- (fst x * snd y), - (snd x * fst y)))"

definition fmul :: "frac \<Rightarrow> frac \<Rightarrow> frac" where
  "fmul x y = float64 (fst x * fst y, snd x * snd y)"

definition int_of_float64 :: "frac \<Rightarrow> int" where
  "int_of_float64 x = (if 0 \<le> fst x then fst x div snd x else - ((- fst x) div snd x))"

text \<open>\<^verbatim>\<open>ProgressReader\<close>: the byte counts \<^verbatim>\<open>Total\<close> and \<^verbatim>\<open>Curr\<close> (64-bit in the
  source, where \<^verbatim>\<open>Curr\<close> counts the bytes of one body and stays far from the bound).
  The wrapped reader and the two time stamps are not kept: what one call of \<^verbatim>\<open>Read\<close>
  gets from them is a \<open>read_call\<close>, namely the number of bytes the wrapped reader
  delivers, whether it reports \<^verbatim>\<open>io.EOF\<close>, and whether more than 500 ms have passed
  since the display was last drawn.\<close>

record ProgressReader =
  Total :: int
  Curr :: int

record read_call =
  nbytes :: int
  at_EOF :: bool
  render_due :: bool

text \<open>\<^verbatim>\<open>render\<close> prints; what matters beyond that is whether it returns. With a total
  other than zero it draws a bar of \<^verbatim>\<open>int(percent/2)\<close> blocks and
  \<^verbatim>\<open>50 - int(percent/2)\<close> blanks, and \<^verbatim>\<open>strings.Repeat\<close> panics on a negative count
  (a count beyond the memory ends the program as well).\<close>

definition render :: "ProgressReader \<Rightarrow> unit outcome" where
  "render p =
     (if Total p = 0 then Returns ()
      else
        (let percent = fmul (fdiv (float64_of_int (Curr p)) (float64_of_int (Total p))) (100, 1);
             n = int_of_float64 (fdiv percent (2, 1))
         in if n < 0 \<or> 50 - n < 0 then Panics else Returns ()))"

definition Read :: "ProgressReader \<Rightarrow> read_call \<Rightarrow> ProgressReader outcome" where
  "Read p r =
     (let p1 = (if 0 < nbytes r then p\<lparr>Curr := Curr p + nbytes r\<rparr> else p)
      in case (if 0 < nbytes r \<and> render_due r then render p1 else Returns ()) of
           Panics \<Rightarrow> Panics
         | Returns _ \<Rightarrow>
             (if at_EOF r
              then (case render p1 of Panics \<Rightarrow> Panics | Returns _ \<Rightarrow> Returns p1)
              else Returns p1))"

text \<open>A sequence of calls of \<^verbatim>\<open>Read\<close>, as the decompressor issues them.\<close>

fun Reads :: "ProgressReader \<Rightarrow> read_call list \<Rightarrow> ProgressReader outcome" where
  "Reads p [] = Returns p"
| "Reads p (r # rs) = (case Read p r of Panics \<Rightarrow> Panics | Returns p' \<Rightarrow> Reads p' rs)"

subsection \<open>Conditional HTTP fetcher (download.go)\<close>

datatype http_method = HEAD | GET

record request =
  meth :: http_method
  req_url :: string
  if_none_match :: "string option"
  if_modified_since :: "string option"

text \<open>What the code sees of a response body, which it reads through a
  \<^verbatim>\<open>ProgressReader\<close>: the calls of \<^verbatim>\<open>Read\<close> that \<^verbatim>\<open>gzip.NewReader\<close> issues and whether
  it fails; for every call of \<^verbatim>\<open>scanner.Scan()\<close> that yields a line, the calls of
  \<^verbatim>\<open>Read\<close> issued during it and the line; the calls of \<^verbatim>\<open>Read\<close> during the last call
  of \<^verbatim>\<open>scanner.Scan()\<close>, which yields no line; and \<^verbatim>\<open>scanner.Err()\<close> after it.\<close>

record body =
  header_reads :: "read_call list"
  gzip_err :: "error option"
  scans :: "(read_call list \<times> string) list"
  last_reads :: "read_call list"
  scan_err :: "error option"

text \<open>A response: \<^verbatim>\<open>StatusCode\<close>, \<^verbatim>\<open>ContentLength\<close> (-1 when the length is unknown),
  the two headers the code reads, and the body.\<close>

record response =
  status :: int
  content_length :: int
  hdr_etag :: string
  hdr_lastmod :: string
  resp_body :: body

text \<open>The places where the code consults the context: at the start of retry \<open>i\<close>, in
  the \<^verbatim>\<open>select\<close> that waits before the next retry, and before processing line \<open>n\<close>
  (for \<open>n\<close> a multiple of 1000).\<close>

datatype checkpoint = AtRetry nat | AtBackoff nat | AtLine nat

text \<open>The inputs of one invocation. \<open>client_Do n req\<close> is the outcome of the \<open>n\<close>-th call
  of \<^verbatim>\<open>client.Do\<close> (the probe is call 0, retry \<open>i\<close> of the full fetch is call \<open>i + 1\<close>);
  \<open>ctx_Err\<close> is \<^verbatim>\<open>ctx.Err()\<close> at a checkpoint; \<open>range_keys\<close> is the order in which
  \<^verbatim>\<open>range\<close> visits a map; \<open>lock_stale\<close> and \<open>lock_err\<close> are the outcomes of the lock
  file's age test and of the lock acquisition; \<open>now_load\<close>, \<open>now_window\<close> and
  \<open>now_entry\<close> are the clock readings in \<^verbatim>\<open>LoadCache\<close>, in the short-window test and
  for the new entry's timestamp.\<close>

record env =
  client_Do :: "nat \<Rightarrow> request \<Rightarrow> error + response"
  ctx_Err :: "checkpoint \<Rightarrow> error option"
  range_keys :: "(string \<rightharpoonup> int) \<Rightarrow> string list"
  lock_stale :: bool
  lock_err :: "error option"
  now_load :: int
  now_window :: int
  now_entry :: int
  faults :: io_faults

definition MaxRetries :: nat where
  "MaxRetries = 3"

text \<open>The request both \<^verbatim>\<open>HeadRequest\<close> and \<^verbatim>\<open>GetRequestWithRetry\<close> build: the
  conditional headers carry the cached validator and modification time when these are
  not empty.\<close>

definition cond_request :: "http_method \<Rightarrow> string \<Rightarrow> CacheEntry option \<Rightarrow> request" where
  "cond_request mth url cached =
     \<lparr>meth = mth, req_url = url,
      if_none_match =
        (case cached of
           Some c \<Rightarrow> if ETag c \<noteq> [] then Some (ETag c) else None
         | None \<Rightarrow> None),
      if_modified_since =
        (case cached of
           Some c \<Rightarrow> if LastModified c \<noteq> [] then Some (LastModified c) else None
         | None \<Rightarrow> None)\<rparr>"

definition HeadRequest :: "env \<Rightarrow> string \<Rightarrow> CacheEntry option \<Rightarrow> error + response" where
  "HeadRequest E url cached = client_Do E 0 (cond_request HEAD url cached)"

text \<open>The loop of \<^verbatim>\<open>GetRequestWithRetry\<close> from retry \<open>i\<close> on, with the last error in
  \<open>err\<close>; the second component lists the requests issued.\<close>

function retry_from :: "env \<Rightarrow> string \<Rightarrow> CacheEntry option \<Rightarrow> nat \<Rightarrow> error option
    \<Rightarrow> (error + response) \<times> request list" where
  "retry_from E url cached i err =
     (if i < MaxRetries then
        (case ctx_Err E (AtRetry i) of
           Some ce \<Rightarrow> (Inl ce, [])
         | None \<Rightarrow>
             (let req = cond_request GET url cached
              in case client_Do E (Suc i) req of
                   Inr resp \<Rightarrow> (Inr resp, [req])
                 | Inl e \<Rightarrow>
                     (case (if i < MaxRetries - 1 then ctx_Err E (AtBackoff i) else None) of
                        Some ce \<Rightarrow> (Inl ce, [req])
                      | None \<Rightarrow>
                          (let (r, reqs) = retry_from E url cached (Suc i) (Some e)
                           in (r, req # reqs)))))
      else ((case err of Some e \<Rightarrow> Inl e | None \<Rightarrow> Inl NilResponse), []))"
  by pat_completeness auto
termination
  by (relation "measure (\<lambda>(E, url, cached, i, err). MaxRetries - i)") auto

declare retry_from.simps [simp del]

definition GetRequestWithRetry :: "env \<Rightarrow> string \<Rightarrow> CacheEntry option
    \<Rightarrow> (error + response) \<times> request list" where
  "GetRequestWithRetry E url cached = retry_from E url cached 0 None"

text \<open>The scanning loop of \<^verbatim>\<open>Download\<close> from line \<open>n\<close> on, with the progress reader
  in state \<open>p\<close>: every iteration starts with a call of \<^verbatim>\<open>scanner.Scan()\<close>, which reads
  through the progress reader and yields the line.\<close>

fun scan_from :: "env \<Rightarrow> ProgressReader \<Rightarrow> nat \<Rightarrow> (read_call list \<times> string) list
    \<Rightarrow> (string \<rightharpoonup> int) \<Rightarrow> (error + ProgressReader \<times> (string \<rightharpoonup> int)) outcome" where
  "scan_from E p n [] counts = Returns (Inr (p, counts))"
| "scan_from E p n ((rs, l) # rest) counts =
     (case Reads p rs of
        Panics \<Rightarrow> Panics
      | Returns p' \<Rightarrow>
          (case (if n mod 1000 = 0 then ctx_Err E (AtLine n) else None) of
             Some ce \<Rightarrow> Returns (Inl ce)
           | None \<Rightarrow> scan_from E p' (Suc n) rest (ProcessLine l counts)))"

text \<open>Step 1 of \<^verbatim>\<open>Download\<close>: the answer taken from the cache when the probe succeeds
  and reports "not modified" or the cached validator and modification time.\<close>

definition head_hit :: "error + response \<Rightarrow> CacheEntry option
    \<Rightarrow> (PackageStats list \<times> string \<times> string) option" where
  "head_hit h cached =
     (case h of
        Inl _ \<Rightarrow> None
      | Inr headResp \<Rightarrow>
          (case cached of
             None \<Rightarrow> None
           | Some c \<Rightarrow>
               if status headResp = 304
                  \<or> (hdr_etag headResp = ETag c \<and> hdr_lastmod headResp = LastModified c)
               then Some (Stats c, ETag c, LastModified c)
               else None))"

text \<open>The part of \<^verbatim>\<open>Download\<close> after a response to the GET request has arrived: the
  switch on the status code, then, reading the body through a progress reader whose
  total is the response's \<^verbatim>\<open>ContentLength\<close>, decompression, scanning and sorting.\<close>

definition read_response :: "env \<Rightarrow> string \<Rightarrow> CacheEntry option \<Rightarrow> response
    \<Rightarrow> (error + PackageStats list \<times> string \<times> string) outcome" where
  "read_response E url cached resp =
     (if status resp = 200 then
        (case Reads \<lparr>Total = content_length resp, Curr = 0\<rparr> (header_reads (resp_body resp)) of
           Panics \<Rightarrow> Panics
         | Returns pr \<Rightarrow>
             (case gzip_err (resp_body resp) of
                Some e \<Rightarrow> Returns (Inl e)
              | None \<Rightarrow>
                  (case scan_from E pr 0 (scans (resp_body resp)) Map.empty of
                     Panics \<Rightarrow> Panics
                   | Returns (Inl e) \<Rightarrow> Returns (Inl e)
                   | Returns (Inr (pr', counts)) \<Rightarrow>
                       (case Reads pr' (last_reads (resp_body resp)) of
                          Panics \<Rightarrow> Panics
                        | Returns _ \<Rightarrow>
                            (case scan_err (resp_body resp) of
                               Some e \<Rightarrow> Returns (Inl e)
                             | None \<Rightarrow>
                                 Returns (Inr (SortMap (range_keys E counts) counts,
                                               hdr_etag resp, hdr_lastmod resp)))))))
      else if status resp = 304 then
        (case cached of
           Some c \<Rightarrow> Returns (Inr (Stats c, ETag c, LastModified c))
         | None \<Rightarrow> Returns (Inl NotModifiedNoCache))
      else if status resp = 404 then Returns (Inl (NotFound404 url))
      else Returns (Inl (HTTPStatus (status resp) url)))"

text \<open>\<^verbatim>\<open>Download(ctx, url, cached)\<close>: the result and the requests issued, in order.\<close>

definition Download :: "env \<Rightarrow> string \<Rightarrow> CacheEntry option
    \<Rightarrow> (error + PackageStats list \<times> string \<times> string) outcome \<times> request list" where
  "Download E url cached =
     (case head_hit (HeadRequest E url cached) cached of
        Some r \<Rightarrow> (Returns (Inr r), [cond_request HEAD url cached])
      | None \<Rightarrow>
          (let (g, reqs) = GetRequestWithRetry E url cached
           in ((case g of
                  Inl err \<Rightarrow>
                    (case cached of
                       Some c \<Rightarrow> Returns (Inr (Stats c, ETag c, LastModified c))
                     | None \<Rightarrow> Returns (Inl err))
                | Inr resp \<Rightarrow> read_response E url cached resp),
               cond_request HEAD url cached # reqs)))"

subsection \<open>Cache orchestrator (app.go)\<close>

record Config =
  cfgArchitecture :: string
  CacheDir :: string
  CacheTTL :: int
  ForceRefresh :: bool
  TopCount :: int
  ShortCacheWindow :: int
  DownloadTimeout :: int

text \<open>\<^verbatim>\<open>filepath.Join(CacheDir, "contents-<arch>.json")\<close> (for a directory name that
  needs no cleaning) and \<^verbatim>\<open>fmt.Sprintf(BaseURL, arch)\<close>.\<close>

definition cacheFile :: "Config \<Rightarrow> string" where
  "cacheFile cfg = CacheDir cfg @ ''/contents-'' @ cfgArchitecture cfg @ ''.json''"

definition lockFile :: "Config \<Rightarrow> string" where
  "lockFile cfg = cacheFile cfg @ ''.lock''"

definition BaseURL :: "string \<Rightarrow> string" where
  "BaseURL arch =
     ''http://ftp.uk.debian.org/debian/dists/stable/main/Contents-'' @ arch @ ''.gz''"

text \<open>The record the orchestrator builds from a download before saving it.\<close>

definition new_entry :: "Config \<Rightarrow> int \<Rightarrow> PackageStats list \<times> string \<times> string \<Rightarrow> CacheEntry" where
  "new_entry cfg now r =
     (case r of (stats, etag, lastMod) \<Rightarrow>
        \<lparr>Architecture = cfgArchitecture cfg, Stats = stats, Timestamp = now,
         ETag = etag, LastModified = lastMod,
         URL = BaseURL (cfgArchitecture cfg), Checksum = []\<rparr>)"

text \<open>The cache record the orchestrator retains: none under force-refresh, otherwise
  what \<^verbatim>\<open>LoadCache\<close> returns, with every error of it dropped.\<close>

definition load_cached :: "stdlib \<Rightarrow> env \<Rightarrow> Config \<Rightarrow> fs \<Rightarrow> CacheEntry option \<times> fs" where
  "load_cached L E cfg files =
     (if ForceRefresh cfg then (None, files)
      else (case LoadCache L (now_load E) (cacheFile cfg) (CacheTTL cfg) files of
              (Inr c, files') \<Rightarrow> (Some c, files')
            | (Inl _, files') \<Rightarrow> (None, files')))"

text \<open>The short cache window: the statistics of a retained record that is younger than
  a positive \<^verbatim>\<open>ShortCacheWindow\<close>.\<close>

definition recent_stats :: "env \<Rightarrow> Config \<Rightarrow> CacheEntry option \<Rightarrow> PackageStats list option" where
  "recent_stats E cfg cached =
     (case cached of
        Some c \<Rightarrow>
          if ShortCacheWindow cfg > 0
             \<and> Since (now_window E) (Timestamp c) < ShortCacheWindow cfg
          then Some (Stats c) else None
      | None \<Rightarrow> None)"

text \<open>\<^verbatim>\<open>AnalyzeWithCache(ctx)\<close>: the result and the file system it leaves. The release of
  the lock is deferred, so it also runs when \<^verbatim>\<open>Download\<close> panics.\<close>

definition AnalyzeWithCache :: "stdlib \<Rightarrow> env \<Rightarrow> Config \<Rightarrow> fs
    \<Rightarrow> (error + PackageStats list) outcome \<times> fs" where
  "AnalyzeWithCache L E cfg files =
     (case AcquireLockWithContext (lock_err E) (lockFile cfg)
             (CleanupStaleLock (lock_stale E) (lockFile cfg) files) of
        (Some e, files0) \<Rightarrow> (Returns (Inl e), files0)
      | (None, files0) \<Rightarrow>
          (let (cached, files1) = load_cached L E cfg files0
           in case recent_stats E cfg cached of
                Some stats \<Rightarrow> (Returns (Inr stats), ReleaseLock (lockFile cfg) files1)
              | None \<Rightarrow>
                  (case fst (Download E (BaseURL (cfgArchitecture cfg)) cached) of
                     Panics \<Rightarrow> (Panics, ReleaseLock (lockFile cfg) files1)
                   | Returns (Inl err) \<Rightarrow>
                       (case cached of
                          Some c \<Rightarrow> (Returns (Inr (Stats c)), ReleaseLock (lockFile cfg) files1)
                        | None \<Rightarrow> (Returns (Inl err), ReleaseLock (lockFile cfg) files1))
                   | Returns (Inr r) \<Rightarrow>
                       (case SaveCache L (faults E) (cacheFile cfg)
                               (new_entry cfg (now_entry E) r) files1 of
                          (_, _, files2) \<Rightarrow>
                            (Returns (Inr (fst r)), ReleaseLock (lockFile cfg) files2)))))"

subsection \<open>Notions used to state the properties\<close>

text \<open>The cache record the orchestrator retains after it has acquired the lock.\<close>

definition retained :: "stdlib \<Rightarrow> env \<Rightarrow> Config \<Rightarrow> fs \<Rightarrow> CacheEntry option" where
  "retained L E cfg files =
     fst (load_cached L E cfg
            (lock_created (lockFile cfg) (CleanupStaleLock (lock_stale E) (lockFile cfg) files)))"

text \<open>A save meets no I/O fault when creating, writing, syncing and closing the
  temporary file succeed and one of the five renames succeeds.\<close>

definition no_io_fault :: "io_faults \<Rightarrow> bool" where
  "no_io_fault F =
     (create_err F = None \<and> write_err F = None \<and> sync_err F = None \<and> close_err F = None
      \<and> rename_attempts (rename_fails F) 0 5)"

text \<open>A record is representable when the JSON routines write it and read the written
  document back as the same record.\<close>

definition json_roundtrips :: "stdlib \<Rightarrow> CacheEntry \<Rightarrow> bool" where
  "json_roundtrips L e =
     (case json_Encode L e of
        Inr doc \<Rightarrow> json_Unmarshal L doc = Some e
      | Inl _ \<Rightarrow> False)"

subsection \<open>A reference instance of the JSON routines\<close>

text \<open>
  The theorems below hold for every instance of \<open>stdlib\<close>. To run the model on concrete
  inputs, \<open>ref_json\<close> writes JSON the way \<^verbatim>\<open>encoding/json\<close> does for records whose
  strings are printable ASCII (compact for \<^verbatim>\<open>json.Marshal\<close>, indented by two spaces and
  followed by a newline for the encoder of \<^verbatim>\<open>SaveCache\<close>; \<^verbatim>\<open>omitempty\<close> members left
  out when empty; the characters \<^verbatim>\<open><\<close>, \<^verbatim>\<open>>\<close> and \<^verbatim>\<open>&\<close> escaped; time stamps in
  RFC 3339 with nanoseconds, UTC), and reads back exactly the documents it writes:
  \<open>ref_Unmarshal\<close> parses a document and accepts it when encoding the parsed record
  gives the document again. (The library's decoder accepts further spellings of the
  same records; a text that is not JSON is rejected by both.)
\<close>

definition digit :: "int \<Rightarrow> char" where
  "digit d = char_of (48 + d)"

function digits :: "int \<Rightarrow> string" where
  "digits n = (if n < 10 then [digit n] else digits (n div 10) @ [digit (n mod 10)])"
  by pat_completeness auto
termination
  by (relation "measure nat") auto

declare digits.simps [simp del]

definition Itoa :: "int \<Rightarrow> string" where
  "Itoa n = (if n < 0 then CHR ''-'' # digits (- n) else digits n)"

definition padded :: "nat \<Rightarrow> int \<Rightarrow> string" where
  "padded w n = map (\<lambda>i. digit ((n div 10 ^ (w - 1 - i)) mod 10)) [0..<w]"

definition civil_from_days :: "int \<Rightarrow> int \<times> int \<times> int" where
  "civil_from_days days =
     (let z = days + 306;
          era = z div 146097;
          doe = z mod 146097;
          yoe = (doe - doe div 1460 + doe div 36524 - doe div 146096) div 365;
          doy = doe - (365 * yoe + yoe div 4 - yoe div 100);
          mp = (5 * doy + 2) div 153;
          d = doy - (153 * mp + 2) div 5 + 1;
          m = (if mp < 10 then mp + 3 else mp - 9);
          y = yoe + era * 400 + (if m \<le> 2 then 1 else 0)
      in (y, m, d))"

definition days_from_civil :: "int \<Rightarrow> int \<Rightarrow> int \<Rightarrow> int" where
  "days_from_civil y m d =
     (let y' = (if m \<le> 2 then y - 1 else y);
          era = y' div 400;
          yoe = y' mod 400;
          mp = (m + 9) mod 12;
          doy = (153 * mp + 2) div 5 + d - 1;
          doe = yoe * 365 + yoe div 4 - yoe div 100 + doy
      in era * 146097 + doe - 306)"

definition format_RFC3339Nano :: "int \<Rightarrow> error + string" where
  "format_RFC3339Nano t =
     (let secs = t div 1000000000;
          frac = t mod 1000000000;
          sod = secs mod 86400
      in case civil_from_days (secs div 86400) of
           (y, m, d) \<Rightarrow>
             if y < 0 \<or> y > 9999 then Inl (LibError ''Time.MarshalJSON: year outside of range [0,9999]'')
             else Inr (padded 4 y @ ''-'' @ padded 2 m @ ''-'' @ padded 2 d @ ''T''
                       @ padded 2 (sod div 3600) @ '':'' @ padded 2 (sod div 60 mod 60) @ '':''
                       @ padded 2 (sod mod 60)
                       @ (if frac = 0 then []
                          else CHR ''.'' # rev (dropWhile (\<lambda>c. c = CHR ''0'') (rev (padded 9 frac))))
                       @ ''Z''))"

definition number :: "string \<Rightarrow> int" where
  "number ds = foldl (\<lambda>a c. 10 * a + (of_char c - 48)) 0 ds"

definition is_digit :: "char \<Rightarrow> bool" where
  "is_digit c = (48 \<le> (of_char c :: nat) \<and> (of_char c :: nat) \<le> 57)"

definition parse_RFC3339 :: "string \<Rightarrow> int" where
  "parse_RFC3339 s =
     (let y = number (take 4 s);
          m = number (take 2 (drop 5 s));
          d = number (take 2 (drop 8 s));
          hh = number (take 2 (drop 11 s));
          mm = number (take 2 (drop 14 s));
          ss = number (take 2 (drop 17 s));
          fd = (case drop 19 s of
                  c # r \<Rightarrow> if c = CHR ''.'' then takeWhile is_digit r else []
                | [] \<Rightarrow> []);
          frac = number (take 9 (fd @ ''000000000''))
      in (days_from_civil y m d * 86400 + hh * 3600 + mm * 60 + ss) * 1000000000 + frac)"


definition printable :: "char \<Rightarrow> bool" where
  "printable c = (32 \<le> (of_char c :: nat) \<and> (of_char c :: nat) < 127)"

definition escape :: "char \<Rightarrow> string" where
  "escape c =
     (if c = CHR 0x22 \<or> c = CHR 0x5C then [CHR 0x5C, c]
      else if c = CHR ''<'' then CHR 0x5C # ''u003c''
      else if c = CHR ''>'' then CHR 0x5C # ''u003e''
      else if c = CHR ''&'' then CHR 0x5C # ''u0026''
      else [c])"

definition quote :: "string \<Rightarrow> string" where
  "quote s = CHR 0x22 # concat (map escape s) @ [CHR 0x22]"

fun join :: "string \<Rightarrow> string list \<Rightarrow> string" where
  "join sep [] = []"
| "join sep [x] = x"
| "join sep (x # y # r) = x @ sep @ join sep (y # r)"

definition nl :: string where
  "nl = [CHR 0x0A]"

definition ref_Marshal :: "PackageStats list \<Rightarrow> error + string" where
  "ref_Marshal stats =
     (if list_all (list_all printable) (map Name stats)
      then Inr (''['' @ join '','' (map (\<lambda>p. ''{\"name\":'' @ quote (Name p)
                     @ '',\"file_count\":'' @ Itoa (FileCount p) @ ''}'') stats) @ '']'')
      else Inl (LibError ''reference codec: string outside printable ASCII''))"

definition stats_block :: "PackageStats list \<Rightarrow> string" where
  "stats_block stats =
     (if stats = [] then ''[]''
      else ''['' @ nl
           @ join ('','' @ nl)
               (map (\<lambda>p. ''    {'' @ nl @ ''      \"name\": '' @ quote (Name p) @ '','' @ nl
                          @ ''      \"file_count\": '' @ Itoa (FileCount p) @ nl @ ''    }'') stats)
           @ nl @ ''  ]'')"

definition opt_member :: "string \<Rightarrow> string \<Rightarrow> string" where
  "opt_member key v =
     (if v = [] then [] else '','' @ nl @ ''  '' @ quote key @ '': '' @ quote v)"

definition ref_Encode :: "CacheEntry \<Rightarrow> error + string" where
  "ref_Encode e =
     (if \<not> list_all (list_all printable)
            (Architecture e # ETag e # LastModified e # URL e # Checksum e # map Name (Stats e))
      then Inl (LibError ''reference codec: string outside printable ASCII'')
      else (case format_RFC3339Nano (Timestamp e) of
              Inl err \<Rightarrow> Inl err
            | Inr ts \<Rightarrow>
                Inr (''{'' @ nl
                     @ ''  \"architecture\": '' @ quote (Architecture e) @ '','' @ nl
                     @ ''  \"stats\": '' @ stats_block (Stats e) @ '','' @ nl
                     @ ''  \"timestamp\": '' @ quote ts
                     @ opt_member ''etag'' (ETag e)
                     @ opt_member ''last_modified'' (LastModified e)
                     @ '','' @ nl @ ''  \"url\": '' @ quote (URL e)
                     @ opt_member ''checksum'' (Checksum e)
                     @ nl @ ''}'' @ nl)))"

definition expect :: "string \<Rightarrow> string \<Rightarrow> string option" where
  "expect p s = (if prefix p s then Some (drop (length p) s) else None)"

definition hex_value :: "string \<Rightarrow> nat" where
  "hex_value ds =
     foldl (\<lambda>a c. 16 * a + (if is_digit c then of_char c - 48 else of_char c - 87)) 0 ds"

fun unquote_body :: "string \<Rightarrow> (string \<times> string) option" where
  "unquote_body [] = None"
| "unquote_body (c # cs) =
     (if c = CHR 0x22 then Some ([], cs)
      else if c = CHR 0x5C then
        (case cs of
           [] \<Rightarrow> None
         | e # cs' \<Rightarrow>
             if e = CHR ''u'' then
               map_option (\<lambda>(r, rest). (char_of (hex_value (take 4 cs')) # r, rest))
                 (unquote_body (drop 4 cs'))
             else map_option (\<lambda>(r, rest). (e # r, rest)) (unquote_body cs'))
      else map_option (\<lambda>(r, rest). (c # r, rest)) (unquote_body cs))"

definition parse_quoted :: "string \<Rightarrow> (string \<times> string) option" where
  "parse_quoted s = Option.bind (expect [CHR 0x22] s) unquote_body"

definition parse_int :: "string \<Rightarrow> (int \<times> string) option" where
  "parse_int s =
     (let r = (case expect ''-'' s of Some r' \<Rightarrow> r' | None \<Rightarrow> s);
          ds = takeWhile is_digit r
      in if ds = [] then None
         else Some ((if r = s then number ds else - number ds), drop (length ds) r))"

definition parse_item :: "string \<Rightarrow> (PackageStats \<times> string) option" where
  "parse_item s =
     Option.bind (expect (''    {'' @ nl @ ''      \"name\": '') s) (\<lambda>r.
     Option.bind (parse_quoted r) (\<lambda>(name, r).
     Option.bind (expect ('','' @ nl @ ''      \"file_count\": '') r) (\<lambda>r.
     Option.bind (parse_int r) (\<lambda>(count, r).
     Option.bind (expect (nl @ ''    }'') r) (\<lambda>r.
       Some (\<lparr>Name = name, FileCount = count\<rparr>, r))))))"

fun parse_items :: "nat \<Rightarrow> string \<Rightarrow> (PackageStats list \<times> string) option" where
  "parse_items 0 s = None"
| "parse_items (Suc fuel) s =
     Option.bind (parse_item s) (\<lambda>(p, r).
       (case expect ('','' @ nl) r of
          None \<Rightarrow> Some ([p], r)
        | Some r' \<Rightarrow> map_option (\<lambda>(ps, r''). (p # ps, r'')) (parse_items fuel r')))"

definition parse_stats :: "string \<Rightarrow> (PackageStats list \<times> string) option" where
  "parse_stats s =
     (case expect ''[]'' s of
        Some r \<Rightarrow> Some ([], r)
      | None \<Rightarrow>
          Option.bind (expect (''['' @ nl) s) (\<lambda>r.
          Option.bind (parse_items (length r) r) (\<lambda>(ps, r).
          Option.bind (expect (nl @ ''  ]'') r) (\<lambda>r. Some (ps, r)))))"

definition parse_opt_member :: "string \<Rightarrow> string \<Rightarrow> (string \<times> string) option" where
  "parse_opt_member key s =
     (case expect ('','' @ nl @ ''  '' @ quote key @ '': '') s of
        None \<Rightarrow> Some ([], s)
      | Some r \<Rightarrow> parse_quoted r)"

definition parse_entry :: "string \<Rightarrow> CacheEntry option" where
  "parse_entry s =
     Option.bind (expect (''{'' @ nl @ ''  \"architecture\": '') s) (\<lambda>r.
     Option.bind (parse_quoted r) (\<lambda>(arch, r).
     Option.bind (expect ('','' @ nl @ ''  \"stats\": '') r) (\<lambda>r.
     Option.bind (parse_stats r) (\<lambda>(stats, r).
     Option.bind (expect ('','' @ nl @ ''  \"timestamp\": '') r) (\<lambda>r.
     Option.bind (parse_quoted r) (\<lambda>(ts, r).
     Option.bind (parse_opt_member ''etag'' r) (\<lambda>(etag, r).
     Option.bind (parse_opt_member ''last_modified'' r) (\<lambda>(lastMod, r).
     Option.bind (expect ('','' @ nl @ ''  \"url\": '') r) (\<lambda>r.
     Option.bind (parse_quoted r) (\<lambda>(url, r).
     Option.bind (parse_opt_member ''checksum'' r) (\<lambda>(sum, r).
       if r = nl @ ''}'' @ nl
       then Some \<lparr>Architecture = arch, Stats = stats, Timestamp = parse_RFC3339 ts,
                  ETag = etag, LastModified = lastMod, URL = url, Checksum = sum\<rparr>
       else None)))))))))))"

definition ref_Unmarshal :: "string \<Rightarrow> CacheEntry option" where
  "ref_Unmarshal data =
     (case parse_entry data of
        None \<Rightarrow> None
      | Some e \<Rightarrow> if ref_Encode e = Inr data then Some e else None)"

definition ref_json :: stdlib where
  "ref_json = \<lparr>json_Marshal = ref_Marshal, json_Encode = ref_Encode,
               json_Unmarshal = ref_Unmarshal\<rparr>"

subsection \<open>Concrete inputs\<close>

text \<open>The configuration \<^verbatim>\<open>parseFlags\<close> builds for \<^verbatim>\<open>amd64\<close> with the default flags
  (durations in nanoseconds), a cache record of 2026-11-01T00:00:00Z with its file, the
  record and the file that a download without any package leaves at 02:00:00Z, and
  environments without cancellation, lock contention or I/O faults whose clock reads
  02:00:00Z.\<close>

definition Hour :: int where
  "Hour = 3600000000000"

definition cfg0 :: Config where
  "cfg0 = \<lparr>cfgArchitecture = ''amd64'', CacheDir = ''/var/cache/package-statistics'',
            CacheTTL = 24 * Hour, ForceRefresh = False, TopCount = 10,
            ShortCacheWindow = Hour, DownloadTimeout = 600000000000\<rparr>"

definition t0 :: int where
  "t0 = 63929088000000000000"

definition cached_entry :: CacheEntry where
  "cached_entry =
     \<lparr>Architecture = ''amd64'',
      Stats = [\<lparr>Name = ''cached-pkg'', FileCount = 100\<rparr>],
      Timestamp = t0,
      ETag = ''v1'', LastModified = ''Sat, 31 Oct 2026 00:00:00 GMT'',
      URL = ''http://ftp.uk.debian.org/debian/dists/stable/main/Contents-amd64.gz'',
      Checksum = ''29fc38211c94892cf9b75b8d39328e18''\<rparr>"

definition cached_doc :: string where
  "cached_doc =
      ''{\<newline>''
      @ ''  \"architecture\": \"amd64\",\<newline>''
      @ ''  \"stats\": [\<newline>''
      @ ''    {\<newline>''
      @ ''      \"name\": \"cached-pkg\",\<newline>''
      @ ''      \"file_count\": 100\<newline>''
      @ ''    }\<newline>''
      @ ''  ],\<newline>''
      @ ''  \"timestamp\": \"2026-11-01T00:00:00Z\",\<newline>''
      @ ''  \"etag\": \"v1\",\<newline>''
      @ ''  \"last_modified\": \"Sat, 31 Oct 2026 00:00:00 GMT\",\<newline>''
      @ ''  \"url\": \"http://ftp.uk.debian.org/debian/dists/stable/main/Contents-amd64.gz\",\<newline>''
      @ ''  \"checksum\": \"29fc38211c94892cf9b75b8d39328e18\"\<newline>''
      @ ''}\<newline>''"

definition empty_entry :: CacheEntry where
  "empty_entry =
     \<lparr>Architecture = ''amd64'',
      Stats = [],
      Timestamp = t0 + 2 * Hour,
      ETag = ''v2'', LastModified = [],
      URL = ''http://ftp.uk.debian.org/debian/dists/stable/main/Contents-amd64.gz'',
      Checksum = ''d751713988987e9331980363e24189ce''\<rparr>"

definition empty_doc :: string where
  "empty_doc =
      ''{\<newline>''
      @ ''  \"architecture\": \"amd64\",\<newline>''
      @ ''  \"stats\": [],\<newline>''
      @ ''  \"timestamp\": \"2026-11-01T02:00:00Z\",\<newline>''
      @ ''  \"etag\": \"v2\",\<newline>''
      @ ''  \"url\": \"http://ftp.uk.debian.org/debian/dists/stable/main/Contents-amd64.gz\",\<newline>''
      @ ''  \"checksum\": \"d751713988987e9331980363e24189ce\"\<newline>''
      @ ''}\<newline>''"



definition no_faults :: io_faults where
  "no_faults = \<lparr>create_err = None, write_err = None, sync_err = None, close_err = None,
                 rename_fails = (\<lambda>i. False)\<rparr>"

definition env0 :: "(nat \<Rightarrow> request \<Rightarrow> error + response) \<Rightarrow> env" where
  "env0 srv =
     \<lparr>client_Do = srv, ctx_Err = (\<lambda>cp. None),
      range_keys = (\<lambda>m. filter (\<lambda>k. m k \<noteq> None) [''pkg1'', ''pkg2'', ''pkg3'']),
      lock_stale = False, lock_err = None,
      now_load = t0 + 2 * Hour, now_window = t0 + 2 * Hour, now_entry = t0 + 2 * Hour,
      faults = no_faults\<rparr>"

text \<open>A response of 64 bytes that announces its length: the decompressor gets all of
  them in its first read and meets the end of the body in its last one.\<close>

definition reply :: "int \<Rightarrow> string \<Rightarrow> string list \<Rightarrow> response" where
  "reply st tag ls =
     \<lparr>status = st, content_length = 64, hdr_etag = tag, hdr_lastmod = [],
      resp_body =
        \<lparr>header_reads = [\<lparr>nbytes = 64, at_EOF = False, render_due = False\<rparr>],
         gzip_err = None,
         scans = map (\<lambda>l. ([], l)) ls,
         last_reads = [\<lparr>nbytes = 0, at_EOF = True, render_due = False\<rparr>],
         scan_err = None\<rparr>\<rparr>"



definition reply_unknown_length :: response where
  "reply_unknown_length =
     (reply 200 ''v2'' [''usr/bin/file1 pkg1,pkg2,pkg3''])\<lparr>content_length := - 1\<rparr>"



definition srv_unknown_length :: "nat \<Rightarrow> request \<Rightarrow> error + response" where
  "srv_unknown_length n req = Inr reply_unknown_length"


definition srv_unreachable :: "nat \<Rightarrow> request \<Rightarrow> error + response" where
  "srv_unreachable n req = Inl (LibError ''dial tcp: connection refused'')"

definition srv_304 :: "nat \<Rightarrow> request \<Rightarrow> error + response" where
  "srv_304 n req = Inr (reply (if meth req = HEAD then 304 else 200) ''v2'' [])"

definition srv_same :: "nat \<Rightarrow> request \<Rightarrow> error + response" where
  "srv_same n req =
     Inr ((reply 200 ''v1'' [])\<lparr>hdr_lastmod := ''Sat, 31 Oct 2026 00:00:00 GMT''\<rparr>)"




section \<open>Verification\<close>

subsection \<open>Properties of the line parser\<close>

lemma find_cong_set: "(\<And>x. x \<in> set xs \<Longrightarrow> P x = Q x) \<Longrightarrow> find P xs = find Q xs"
  by (induction xs) auto

lemma no_space_prefix_F: "find (\<lambda>p. prefix p (CHR ''F'' # t)) space_encodings = None"
  by (simp add: space_encodings_def)

lemma TrimLeft_FILE: "TrimLeft (CHR ''F'' # t) = CHR ''F'' # t"
  by (subst TrimLeft.simps) (simp add: no_space_prefix_F)

lemma suffix_Cons_neutral:
  assumes "c \<notin> space_bytes" "p \<in> set space_encodings"
  shows "suffix p (c # s) = suffix p s"
proof -
  have "c \<notin> set p" using assms by (auto simp: space_bytes_def)
  then have "p \<noteq> c # s" by auto
  then show ?thesis by (simp add: suffix_Cons)
qed

lemma TrimRight_Cons_neutral:
  "c \<notin> space_bytes \<Longrightarrow> TrimRight (c # s) = c # TrimRight s"
proof (induction s rule: TrimRight.induct)
  case (1 s)
  have eq: "find (\<lambda>p. suffix p (c # s)) space_encodings = find (\<lambda>p. suffix p s) space_encodings"
    by (rule find_cong_set) (simp add: suffix_Cons_neutral "1.prems")
  show ?case
  proof (cases "find (\<lambda>p. suffix p s) space_encodings")
    case None
    then show ?thesis
      using eq by (simp add: TrimRight.simps [of s] TrimRight.simps [of "c # s"])
  next
    case (Some p)
    then have "suffix p s" by (auto simp: find_Some_iff)
    then have le: "length p \<le> length s" by (rule suffix_length_le)
    have "TrimRight (c # s) = TrimRight (take (length (c # s) - length p) (c # s))"
      using eq Some by (simp add: TrimRight.simps [of "c # s"])
    also have "take (length (c # s) - length p) (c # s) = c # take (length s - length p) s"
      using le by (simp add: Suc_diff_le)
    also have "TrimRight (c # take (length s - length p) s) = c # TrimRight (take (length s - length p) s)"
      using "1.IH" [OF Some] "1.prems" by simp
    also have "TrimRight (take (length s - length p) s) = TrimRight s"
      using Some by (simp add: TrimRight.simps [of s])
    finally show ?thesis .
  qed
qed

lemma TrimSpace_FILE:
  assumes "HasPrefix line ''FILE''"
  shows "HasPrefix (TrimSpace line) ''FILE''"
proof -
  from assms obtain t where line: "line = CHR ''F'' # CHR ''I'' # CHR ''L'' # CHR ''E'' # t"
    by (auto simp: HasPrefix_def prefix_def)
  have n: "CHR ''F'' \<notin> space_bytes" "CHR ''I'' \<notin> space_bytes"
          "CHR ''L'' \<notin> space_bytes" "CHR ''E'' \<notin> space_bytes"
    by (simp_all add: space_bytes_def space_encodings_def)
  show ?thesis
    by (simp add: TrimSpace_def line TrimLeft_FILE TrimRight_Cons_neutral n HasPrefix_def)
qed

lemma set_TrimLeft: "set (TrimLeft s) \<subseteq> set s"
proof (induction s rule: TrimLeft.induct)
  case (1 s)
  show ?case
  proof (cases "find (\<lambda>p. prefix p s) space_encodings")
    case None
    then show ?thesis by (simp add: TrimLeft.simps [of s])
  next
    case (Some p)
    then show ?thesis
      using "1.IH" [OF Some] set_drop_subset [of "length p" s]
      by (auto simp: TrimLeft.simps [of s])
  qed
qed

lemma set_TrimRight: "set (TrimRight s) \<subseteq> set s"
proof (induction s rule: TrimRight.induct)
  case (1 s)
  show ?case
  proof (cases "find (\<lambda>p. suffix p s) space_encodings")
    case None
    then show ?thesis by (simp add: TrimRight.simps [of s])
  next
    case (Some p)
    then show ?thesis
      using "1.IH" [OF Some] set_take_subset [of "length s - length p" s]
      by (auto simp: TrimRight.simps [of s])
  qed
qed

lemma set_TrimSpace: "set (TrimSpace s) \<subseteq> set s"
  using set_TrimLeft [of s] set_TrimRight [of "TrimLeft s"] by (auto simp: TrimSpace_def)

lemma Index_absent: "CHR '' '' \<notin> set s \<Longrightarrow> Index s '' '' = - 1"
proof (induction s)
  case Nil
  then show ?case by (simp add: Index.simps [of "[]"])
next
  case (Cons c s)
  then show ?case by (simp add: Index.simps [of "c # s"])
qed

lemma TrimSpace_Nil: "TrimSpace [] = []"
  by code_simp

lemma ProcessLine_empty: "ProcessLine [] m = m"
  by (simp add: ProcessLine_def TrimSpace_Nil)

lemma ProcessLine_header: "HasPrefix line ''FILE'' \<Longrightarrow> ProcessLine line m = m"
  by (simp add: ProcessLine_def TrimSpace_FILE Let_def)

lemma ProcessLine_no_space: "CHR '' '' \<notin> set line \<Longrightarrow> ProcessLine line m = m"
proof -
  assume "CHR '' '' \<notin> set line"
  then have "CHR '' '' \<notin> set (TrimSpace line)" using set_TrimSpace [of line] by auto
  then have "Index (TrimSpace line) '' '' = - 1" by (rule Index_absent)
  then show ?thesis by (simp add: ProcessLine_def Let_def)
qed

lemma ProcessLine_example_steps:
  "TrimSpace ''usr/bin/file1 pkg1,pkg2,pkg3'' = ''usr/bin/file1 pkg1,pkg2,pkg3''"
  "Index ''usr/bin/file1 pkg1,pkg2,pkg3'' '' '' = 13"
  "map TrimSpace (Split (TrimSpace ''pkg1,pkg2,pkg3'') (CHR '','')) = [''pkg1'', ''pkg2'', ''pkg3'']"
  by code_simp+

lemma ProcessLine_fold:
  "ProcessLine line0 m =
     (let line = TrimSpace line0 in
      if line = [] \<or> HasPrefix line ''FILE'' then m
      else (let idx = Index line '' '' in
            if idx = - 1 then m
            else foldl incr m (filter (\<lambda>p. p \<noteq> [])
                   (map TrimSpace (Split (TrimSpace (drop (nat (idx + 1)) line)) (CHR '','')))))) "
proof -
  have "foldl (\<lambda>m' pkg0. (let pkg = TrimSpace pkg0 in if pkg \<noteq> [] then incr m' pkg else m')) m xs
        = foldl incr m (filter (\<lambda>p. p \<noteq> []) (map TrimSpace xs))" for xs
    by (induction xs arbitrary: m) (simp_all add: Let_def)
  then show ?thesis by (simp add: ProcessLine_def Let_def)
qed

lemma ProcessLine_example:
  "ProcessLine ''usr/bin/file1 pkg1,pkg2,pkg3'' Map.empty
     = [''pkg1'' \<mapsto> 1, ''pkg2'' \<mapsto> 1, ''pkg3'' \<mapsto> 1]"
  by (simp add: ProcessLine_fold ProcessLine_example_steps HasPrefix_def incr_def Let_def)

text \<open>
  Claim C8. \<open>ProcessLine\<close> applied to the line \<^verbatim>\<open>usr/bin/file1 pkg1,pkg2,pkg3\<close> and the
  empty aggregation yields exactly \<open>{pkg1: 1, pkg2: 1, pkg3: 1}\<close>; and for every
  aggregation \<open>m\<close>, the empty line, a line that starts with the header prefix
  \<^verbatim>\<open>FILE\<close>, and a line that contains no space leave \<open>m\<close> unchanged.
\<close>

theorem ProcessLine_contributions:
  "ProcessLine ''usr/bin/file1 pkg1,pkg2,pkg3'' Map.empty
     = [''pkg1'' \<mapsto> 1, ''pkg2'' \<mapsto> 1, ''pkg3'' \<mapsto> 1]
   \<and> ProcessLine [] m = m
   \<and> (HasPrefix line ''FILE'' \<longrightarrow> ProcessLine line m = m)
   \<and> (CHR '' '' \<notin> set line \<longrightarrow> ProcessLine line m = m)"
  by (simp add: ProcessLine_example ProcessLine_empty ProcessLine_header ProcessLine_no_space)

theorem ProcessLine_contributions_witness:
  "HasPrefix ''FILE    LOCATION'' ''FILE''
   \<and> ProcessLine ''FILE    LOCATION'' [''pkg1'' \<mapsto> 2] = [''pkg1'' \<mapsto> 2]
   \<and> CHR '' '' \<notin> set ''usr/bin/file1pkg1''
   \<and> ProcessLine ''usr/bin/file1pkg1'' [''pkg1'' \<mapsto> 2] = [''pkg1'' \<mapsto> 2]
   \<and> ProcessLine [] [''pkg1'' \<mapsto> 2] = [''pkg1'' \<mapsto> 2]"
  using ProcessLine_contributions [of "[''pkg1'' \<mapsto> 2]" "''FILE    LOCATION''"]
        ProcessLine_contributions [of "[''pkg1'' \<mapsto> 2]" "''usr/bin/file1pkg1''"]
  by (simp add: HasPrefix_def)

subsection \<open>Properties of the aggregation finalizer\<close>

lemma mset_sift: "mset (sift lt x r) = add_mset x (mset r)"
  by (induction r) simp_all

lemma set_sift: "set (sift lt x r) = insert x (set r)"
  by (induction r) auto

lemma mset_foldl_sift: "mset (foldl (\<lambda>racc x. sift lt x racc) acc xs) = mset acc + mset xs"
  by (induction xs arbitrary: acc) (simp_all add: mset_sift)

lemma mset_sort_Slice: "mset (sort_Slice lt xs) = mset xs"
  by (simp add: sort_Slice_def mset_foldl_sift)

lemma sorted_sift:
  "sorted_wrt (\<lambda>a b. FileCount a \<le> FileCount b) r \<Longrightarrow>
   sorted_wrt (\<lambda>a b. FileCount a \<le> FileCount b)
     (sift (\<lambda>a b. FileCount a > FileCount b) x r)"
  by (induction r) (auto simp: set_sift)

lemma sorted_foldl_sift:
  "sorted_wrt (\<lambda>a b. FileCount a \<le> FileCount b) acc \<Longrightarrow>
   sorted_wrt (\<lambda>a b. FileCount a \<le> FileCount b)
     (foldl (\<lambda>racc x. sift (\<lambda>a b. FileCount a > FileCount b) x racc) acc xs)"
  by (induction xs arbitrary: acc) (simp_all add: sorted_sift)

lemma sorted_sort_Slice:
  "sorted_wrt (\<lambda>a b. FileCount a \<ge> FileCount b)
     (sort_Slice (\<lambda>a b. FileCount a > FileCount b) xs)"
proof -
  have "sorted_wrt (\<lambda>a b. FileCount a \<le> FileCount b)
     (foldl (\<lambda>racc x. sift (\<lambda>a b. FileCount a > FileCount b) x racc) [] xs)"
    by (rule sorted_foldl_sift) simp
  then show ?thesis
    by (simp add: sort_Slice_def sorted_wrt_rev)
qed

lemma set_range_entries:
  "set ks = dom m \<Longrightarrow>
   set (range_entries ks m) = {\<lparr>Name = k, FileCount = v\<rparr> |k v. m k = Some v}"
  by (auto simp: range_entries_def split: option.splits)

lemma names_range_entries: "map Name (range_entries ks m) = filter (\<lambda>k. k \<in> dom m) ks"
  by (induction ks) (auto simp: range_entries_def split: option.splits)

lemma SortMap_props:
  assumes "range_order ks m"
  shows "sorted_wrt (\<lambda>a b. FileCount a \<ge> FileCount b) (SortMap ks m)"
    and "set (SortMap ks m) = {\<lparr>Name = k, FileCount = v\<rparr> |k v. m k = Some v}"
    and "distinct (map Name (SortMap ks m))"
    and "length (SortMap ks m) = card (dom m)"
proof -
  have ms: "mset (SortMap ks m) = mset (range_entries ks m)"
    by (simp add: SortMap_def mset_sort_Slice)
  show "sorted_wrt (\<lambda>a b. FileCount a \<ge> FileCount b) (SortMap ks m)"
    by (simp add: SortMap_def sorted_sort_Slice)
  from assms have sk: "set ks = dom m" and dk: "distinct ks"
    by (simp_all add: range_order_def)
  have "set (SortMap ks m) = set (range_entries ks m)"
    using ms by (metis set_mset_mset)
  then show "set (SortMap ks m) = {\<lparr>Name = k, FileCount = v\<rparr> |k v. m k = Some v}"
    using sk by (simp add: set_range_entries)
  have f: "filter (\<lambda>k. k \<in> dom m) ks = ks"
    using sk by (simp add: filter_id_conv)
  have "mset (map Name (SortMap ks m)) = mset (map Name (range_entries ks m))"
    using ms by (metis mset_map)
  then have mm: "mset (map Name (SortMap ks m)) = mset ks"
    by (simp add: names_range_entries f)
  then show "distinct (map Name (SortMap ks m))"
    using dk by (metis mset_eq_imp_distinct_iff)
  have "length (map Name (SortMap ks m)) = length ks"
    using mm by (metis mset_eq_length)
  then show "length (SortMap ks m) = card (dom m)"
    using sk dk by (metis distinct_card length_map)
qed

lemma two_orders:
  assumes "distinct ks" "set ks = {a, b}" "a \<noteq> b"
  shows "ks = [a, b] \<or> ks = [b, a]"
proof -
  have "length ks = 2" using assms by (metis card_2_iff distinct_card)
  then obtain x y where "ks = [x, y]"
    by (metis (no_types) Suc_length_conv length_0_conv numeral_2_eq_2)
  then show ?thesis using assms by (auto simp: doubleton_eq_iff)
qed

lemma SortMap_low_high:
  assumes "range_order ks [''low'' \<mapsto> 5, ''high'' \<mapsto> 50]"
  shows "SortMap ks [''low'' \<mapsto> 5, ''high'' \<mapsto> 50]
           = [\<lparr>Name = ''high'', FileCount = 50\<rparr>, \<lparr>Name = ''low'', FileCount = 5\<rparr>]"
proof -
  from assms have "distinct ks" "set ks = {''low'', ''high''}"
    by (auto simp: range_order_def)
  then have "ks = [''low'', ''high''] \<or> ks = [''high'', ''low'']"
    by (intro two_orders) simp_all
  then show ?thesis
    by (auto simp: SortMap_def sort_Slice_def range_entries_def)
qed

text \<open>
  Claim C7, as the code has it. For every aggregation \<open>m\<close> and every order \<open>ks\<close> in
  which the runtime may visit its keys, \<open>SortMap\<close> returns the entries of \<open>m\<close>, each name
  once, sorted by count descending; the order among entries of equal count is not
  determined by the aggregation (it follows the runtime's visiting order). The
  aggregation \<open>{low: 5, high: 50}\<close> sorts to \<open>[{high, 50}, {low, 5}]\<close> under every
  visiting order.
\<close>

theorem SortMap_sorted_descending:
  assumes "range_order ks m"
  shows "sorted_wrt (\<lambda>a b. FileCount a \<ge> FileCount b) (SortMap ks m)
       \<and> set (SortMap ks m) = {\<lparr>Name = k, FileCount = v\<rparr> |k v. m k = Some v}
       \<and> distinct (map Name (SortMap ks m))
       \<and> (range_order ks' [''low'' \<mapsto> 5, ''high'' \<mapsto> 50] \<longrightarrow>
            SortMap ks' [''low'' \<mapsto> 5, ''high'' \<mapsto> 50]
              = [\<lparr>Name = ''high'', FileCount = 50\<rparr>, \<lparr>Name = ''low'', FileCount = 5\<rparr>])"
  using SortMap_props(1-3) [OF assms] SortMap_low_high by blast

theorem SortMap_sorted_descending_witness:
  "range_order [''low'', ''high''] [''low'' \<mapsto> 5, ''high'' \<mapsto> 50]
   \<and> sorted_wrt (\<lambda>a b. FileCount a \<ge> FileCount b)
        (SortMap [''low'', ''high''] [''low'' \<mapsto> 5, ''high'' \<mapsto> 50])
   \<and> distinct (map Name (SortMap [''low'', ''high''] [''low'' \<mapsto> 5, ''high'' \<mapsto> 50]))
   \<and> range_order [''high'', ''low''] [''low'' \<mapsto> 5, ''high'' \<mapsto> 50]
   \<and> SortMap [''high'', ''low''] [''low'' \<mapsto> 5, ''high'' \<mapsto> 50]
        = [\<lparr>Name = ''high'', FileCount = 50\<rparr>, \<lparr>Name = ''low'', FileCount = 5\<rparr>]"
proof -
  have a: "range_order [''low'', ''high''] [''low'' \<mapsto> 5, ''high'' \<mapsto> 50]"
    by (auto simp: range_order_def)
  have b: "range_order [''high'', ''low''] [''low'' \<mapsto> 5, ''high'' \<mapsto> 50]"
    by (auto simp: range_order_def)
  show ?thesis
    using a b SortMap_sorted_descending [OF a, of "[''high'', ''low'']"] by blast
qed

text \<open>
  Claim C7 as stated fails: ties are not broken by insertion order. The line
  \<^verbatim>\<open>usr/bin/f a,b\<close> inserts \<open>a\<close> before \<open>b\<close>, both with count 1; the runtime may visit
  the resulting map in the order \<open>b, a\<close>, and \<open>SortMap\<close> then returns \<open>b\<close> before \<open>a\<close>,
  whereas the stable sort of the entries in insertion order keeps \<open>a\<close> first.
\<close>

theorem SortMap_ties_counterexample:
  "ProcessLine ''usr/bin/f a,b'' Map.empty = [''a'' \<mapsto> 1, ''b'' \<mapsto> 1]
   \<and> range_order [''b'', ''a''] [''a'' \<mapsto> 1, ''b'' \<mapsto> 1]
   \<and> SortMap [''b'', ''a''] [''a'' \<mapsto> 1, ''b'' \<mapsto> 1]
        = [\<lparr>Name = ''b'', FileCount = 1\<rparr>, \<lparr>Name = ''a'', FileCount = 1\<rparr>]
   \<and> stable_items [''a'', ''b''] [''a'' \<mapsto> 1, ''b'' \<mapsto> 1]
        = [\<lparr>Name = ''a'', FileCount = 1\<rparr>, \<lparr>Name = ''b'', FileCount = 1\<rparr>]"
proof -
  have s: "TrimSpace ''usr/bin/f a,b'' = ''usr/bin/f a,b''"
          "Index ''usr/bin/f a,b'' '' '' = 9"
          "map TrimSpace (Split (TrimSpace ''a,b'') (CHR '','')) = [''a'', ''b'']"
    by code_simp+
  have "ProcessLine ''usr/bin/f a,b'' Map.empty = [''a'' \<mapsto> 1, ''b'' \<mapsto> 1]"
    by (simp add: ProcessLine_fold s HasPrefix_def incr_def Let_def)
  moreover have "range_order [''b'', ''a''] [''a'' \<mapsto> 1, ''b'' \<mapsto> 1]"
    by (auto simp: range_order_def)
  ultimately show ?thesis
    by (simp add: SortMap_def sort_Slice_def range_entries_def stable_items_def)
qed

subsection \<open>Properties of the cache store\<close>

text \<open>Where the time-to-live is below the largest duration, the saturation of
  \<^verbatim>\<open>Time.Sub\<close> does not show: an age above the time-to-live is measured as such.\<close>

lemma Since_exact:
  "ttl < maxDuration \<Longrightarrow> now - t > ttl \<Longrightarrow> Since now t > ttl"
  by (auto simp: Since_def Sub_def Let_def maxDuration_def minDuration_def)

text \<open>
  Claim C4. For every file whose content \<^verbatim>\<open>json.Unmarshal\<close> rejects, \<open>LoadCache\<close>
  deletes the file and returns the corrupt-cache error; a second \<open>LoadCache\<close> of the
  same path, on the file system the first one left, returns the not-found error.
\<close>

theorem LoadCache_corrupt_heals:
  assumes "files file = Some data" and "json_Unmarshal L data = None"
  shows "LoadCache L now file ttl files = (Inl CorruptCacheRemoved, files(file := None))
       \<and> LoadCache L now' file ttl' (files(file := None)) = (Inl ErrNotExist, files(file := None))"
  using assms by (simp add: LoadCache_def)

text \<open>
  Claim C5. For every file that holds a valid serialized record whose capture timestamp
  is older than the time-to-live (its age as \<^verbatim>\<open>time.Since\<close> measures it, or its exact
  age when the time-to-live is below the largest duration), \<open>LoadCache\<close> returns the
  expired-cache error, returns no record and leaves the whole file system, the file
  included, as it was.
\<close>

theorem LoadCache_expired_keeps_file:
  assumes "files file = Some data" and "json_Unmarshal L data = Some entry"
    and "Since now (Timestamp entry) > ttl \<or> (ttl < maxDuration \<and> now - Timestamp entry > ttl)"
  shows "LoadCache L now file ttl files = (Inl CacheExpired, files)"
  using assms by (auto simp: LoadCache_def Since_exact)

lemma SaveCache_succeeds:
  assumes "json_Marshal L (Stats entry) = Inr data"
    and "json_Encode L (entry\<lparr>Checksum := Sprintf_x (md5_Sum data)\<rparr>) = Inr doc"
    and "no_io_fault F"
  shows "SaveCache L F file entry files
           = (None, entry\<lparr>Checksum := Sprintf_x (md5_Sum data)\<rparr>,
              (files(file \<mapsto> doc))(file @ ''.tmp'' := None))"
  using assms by (simp add: SaveCache_def no_io_fault_def)

text \<open>
  Claim C6. Take a valid record: its statistics serialize (to \<open>data\<close>) and the JSON
  routines represent the record as saved, that is with the checksum of \<open>data\<close>. When
  the save meets no I/O fault, \<open>SaveCache\<close> succeeds, and \<open>LoadCache\<close> of the same path
  on the file system it leaves, under a time-to-live that covers the record's age,
  succeeds and returns the record as saved: the caller's record with the checksum that
  the save computed, every other field unchanged.
\<close>

theorem SaveCache_LoadCache_roundtrip:
  assumes "json_Marshal L (Stats entry) = Inr data"
    and "json_roundtrips L (entry\<lparr>Checksum := Sprintf_x (md5_Sum data)\<rparr>)"
    and "no_io_fault F"
    and "Since now (Timestamp entry) \<le> ttl"
  shows "\<exists>files'.
           SaveCache L F file entry files
             = (None, entry\<lparr>Checksum := Sprintf_x (md5_Sum data)\<rparr>, files')
           \<and> LoadCache L now file ttl files'
               = (Inr (entry\<lparr>Checksum := Sprintf_x (md5_Sum data)\<rparr>), files')"
proof -
  let ?saved = "entry\<lparr>Checksum := Sprintf_x (md5_Sum data)\<rparr>"
  from assms(2) obtain doc where
    d: "json_Encode L ?saved = Inr doc" and u: "json_Unmarshal L doc = Some ?saved"
    by (auto simp: json_roundtrips_def split: sum.splits)
  let ?files' = "(files(file \<mapsto> doc))(file @ ''.tmp'' := None)"
  have s: "SaveCache L F file entry files = (None, ?saved, ?files')"
    by (rule SaveCache_succeeds [OF assms(1) d assms(3)])
  have "?files' file = Some doc"
    by simp
  then have "LoadCache L now file ttl ?files' = (Inr ?saved, ?files')"
    using u assms(4) by (simp add: LoadCache_def)
  then show ?thesis using s by blast
qed

text \<open>
  Claim C10. For every entry whose statistics serialize (to \<open>data\<close>), whatever I/O
  faults the save meets, the entry the caller holds after \<open>SaveCache\<close> is the entry
  before with its checksum replaced by the hexadecimal MD5 digest of \<open>data\<close> and no
  other field changed. The assignment precedes all file I/O: when the first I/O step
  (creating the temporary file) fails, the save returns that error with the file system
  untouched and the checksum already assigned.
\<close>

theorem SaveCache_checksum_assigned:
  assumes "json_Marshal L (Stats entry) = Inr data"
  shows "fst (snd (SaveCache L F file entry files)) = entry\<lparr>Checksum := Sprintf_x (md5_Sum data)\<rparr>
       \<and> (create_err F = Some e \<longrightarrow>
            SaveCache L F file entry files
              = (Some e, entry\<lparr>Checksum := Sprintf_x (md5_Sum data)\<rparr>, files))"
  using assms by (simp add: SaveCache_def Let_def split: option.splits sum.splits)

subsection \<open>Properties of the fetcher and the orchestrator\<close>

lemma meth_cond_request [simp]: "meth (cond_request mth url cached) = mth"
  by (simp add: cond_request_def)

lemma head_hit_None [simp]: "head_hit h None = None"
  by (simp add: head_hit_def split: sum.splits)

lemma head_hit_Some:
  "head_hit h (Some c) = Some r \<Longrightarrow> r = (Stats c, ETag c, LastModified c)"
  by (auto simp: head_hit_def split: sum.splits if_splits)

text \<open>
  Claim C3. For every prior cache record \<open>c\<close> (validator \<open>ETag c\<close>, modification time
  \<open>LastModified c\<close>): if the probe (HEAD) succeeds and either reports status 304 or
  returns a validator and a modification time both equal to those of \<open>c\<close>, then
  \<open>Download\<close> returns the items of \<open>c\<close> with its validator and modification time, and
  the only request it issues is the probe: no GET request.
\<close>

theorem Download_probe_unchanged:
  assumes "HeadRequest E url (Some c) = Inr h"
    and "status h = 304 \<or> (hdr_etag h = ETag c \<and> hdr_lastmod h = LastModified c)"
  shows "Download E url (Some c)
           = (Returns (Inr (Stats c, ETag c, LastModified c)), [cond_request HEAD url (Some c)])
       \<and> GET \<notin> meth ` set (snd (Download E url (Some c)))"
proof -
  have "head_hit (HeadRequest E url (Some c)) (Some c) = Some (Stats c, ETag c, LastModified c)"
    using assms by (auto simp: head_hit_def)
  then have "Download E url (Some c)
           = (Returns (Inr (Stats c, ETag c, LastModified c)), [cond_request HEAD url (Some c)])"
    by (simp add: Download_def)
  then show ?thesis by simp
qed

lemma retry_from_all_fail:
  assumes "\<And>n. isl (client_Do E n (cond_request GET url cached))"
  shows "isl (fst (retry_from E url cached i err))"
  using assms
proof (induction E url cached i err rule: retry_from.induct)
  case (1 E url cached i err)
  show ?case
  proof (cases "i < MaxRetries")
    case False
    then show ?thesis
      by (simp add: retry_from.simps [of E url cached i err] split: option.splits)
  next
    case True
    show ?thesis
    proof (cases "ctx_Err E (AtRetry i)")
      case (Some ce)
      then show ?thesis using True
        by (simp add: retry_from.simps [of E url cached i err])
    next
      case None
      from "1.prems" [of "Suc i"] obtain e where
        e: "client_Do E (Suc i) (cond_request GET url cached) = Inl e"
        by (auto simp: isl_def)
      show ?thesis
      proof (cases "if i < MaxRetries - 1 then ctx_Err E (AtBackoff i) else None")
        case (Some ce)
        then show ?thesis using True None e
          by (simp add: retry_from.simps [of E url cached i err])
      next
        case N2: None
        have "isl (fst (retry_from E url cached (Suc i) (Some e)))"
          using "1.IH" [OF True None refl e N2] "1.prems" by simp
        then show ?thesis using True None e N2
          by (simp add: retry_from.simps [of E url cached i err] case_prod_beta)
      qed
    qed
  qed
qed

lemma retry_from_no_cancel:
  assumes "\<And>n. isl (client_Do E n (cond_request GET url cached))"
    and "\<And>cp. ctx_Err E cp = None"
    and "i < MaxRetries"
  shows "fst (retry_from E url cached i err) = client_Do E MaxRetries (cond_request GET url cached)"
  using assms(3)
proof (induction "MaxRetries - i" arbitrary: i err)
  case 0
  then show ?case by simp
next
  case (Suc k)
  from assms(1) [of "Suc i"] obtain e where
    e: "client_Do E (Suc i) (cond_request GET url cached) = Inl e"
    by (auto simp: isl_def)
  show ?case
  proof (cases "Suc i < MaxRetries")
    case True
    then have "fst (retry_from E url cached (Suc i) (Some e))
                 = client_Do E MaxRetries (cond_request GET url cached)"
      using Suc.hyps(1) [of "Suc i" "Some e"] Suc.hyps(2) by simp
    then show ?thesis using Suc.prems e assms(2)
      by (simp add: retry_from.simps [of E url cached i err] case_prod_beta)
  next
    case False
    then have i: "Suc i = MaxRetries" using Suc.prems by simp
    have "\<not> Suc i < MaxRetries" using i by simp
    then have "retry_from E url cached (Suc i) (Some e) = (Inl e, [])"
      by (simp add: retry_from.simps [of E url cached "Suc i" "Some e"])
    then show ?thesis using Suc.prems e assms(2) i
      by (simp add: retry_from.simps [of E url cached i err])
  qed
qed

lemma Download_cached_all_fail:
  assumes "\<And>n. isl (client_Do E n (cond_request GET url (Some c)))"
  shows "fst (Download E url (Some c)) = Returns (Inr (Stats c, ETag c, LastModified c))"
proof (cases "head_hit (HeadRequest E url (Some c)) (Some c)")
  case (Some r)
  then show ?thesis using head_hit_Some [OF Some] by (simp add: Download_def)
next
  case None
  have "isl (fst (GetRequestWithRetry E url (Some c)))"
    unfolding GetRequestWithRetry_def by (rule retry_from_all_fail) (rule assms)
  then show ?thesis using None
    by (auto simp: Download_def isl_def split: prod.splits)
qed

lemma Download_no_cache:
  "fst (Download E url None) =
     (case fst (GetRequestWithRetry E url None) of
        Inl err \<Rightarrow> Returns (Inl err)
      | Inr resp \<Rightarrow> read_response E url None resp)"
  by (simp add: Download_def split: prod.splits sum.splits)

lemma Download_no_cache_all_fail:
  assumes "\<And>n. isl (client_Do E n (cond_request GET url None))"
  shows "\<exists>e. fst (GetRequestWithRetry E url None) = Inl e
              \<and> fst (Download E url None) = Returns (Inl e)"
proof -
  have "isl (fst (GetRequestWithRetry E url None))"
    unfolding GetRequestWithRetry_def by (rule retry_from_all_fail) (rule assms)
  then show ?thesis
    by (auto simp: Download_no_cache isl_def)
qed


lemma Analyze_locked:
  assumes "lock_err E = None"
  shows "fst (AnalyzeWithCache L E cfg files) =
     (case recent_stats E cfg (retained L E cfg files) of
        Some stats \<Rightarrow> Returns (Inr stats)
      | None \<Rightarrow>
          (case fst (Download E (BaseURL (cfgArchitecture cfg)) (retained L E cfg files)) of
             Panics \<Rightarrow> Panics
           | Returns (Inl err) \<Rightarrow>
               (case retained L E cfg files of
                  Some c \<Rightarrow> Returns (Inr (Stats c))
                | None \<Rightarrow> Returns (Inl err))
           | Returns (Inr r) \<Rightarrow> Returns (Inr (fst r))))"
  using assms
  by (simp add: AnalyzeWithCache_def AcquireLockWithContext_def retained_def Let_def
           split: prod.splits option.splits sum.splits outcome.splits)

lemma recent_stats_Some: "recent_stats E cfg (Some c) = Some s \<Longrightarrow> s = Stats c"
  by (auto simp: recent_stats_def split: if_splits)

lemma recent_stats_None [simp]: "recent_stats E cfg None = None"
  by (simp add: recent_stats_def)

text \<open>
  Claim C2. Let every GET request fail at the transport level (\<^verbatim>\<open>client.Do\<close> returns
  an error), on every attempt. With a prior record \<open>c\<close>, \<open>Download\<close> returns the items,
  validator and modification time of \<open>c\<close> and no error, and \<open>AnalyzeWithCache\<close> returns
  the items of the record it retained. Without a prior record, \<open>Download\<close> and
  \<open>AnalyzeWithCache\<close> fail with the error of \<^verbatim>\<open>GetRequestWithRetry\<close>, which, when the
  context is never cancelled, is the transport error of the last of the \<open>MaxRetries\<close>
  attempts.
\<close>

theorem transport_failure_falls_back:
  assumes "\<And>n req. meth req = GET \<Longrightarrow> isl (client_Do E n req)"
  shows "fst (Download E url (Some c)) = Returns (Inr (Stats c, ETag c, LastModified c))
       \<and> (\<exists>e. fst (GetRequestWithRetry E url None) = Inl e
                \<and> fst (Download E url None) = Returns (Inl e))
       \<and> (lock_err E = None \<and> retained L E cfg files = Some c' \<longrightarrow>
            fst (AnalyzeWithCache L E cfg files) = Returns (Inr (Stats c')))
       \<and> (lock_err E = None \<and> retained L E cfg files = None \<longrightarrow>
            (\<exists>e. fst (GetRequestWithRetry E (BaseURL (cfgArchitecture cfg)) None) = Inl e
                  \<and> fst (AnalyzeWithCache L E cfg files) = Returns (Inl e)))
       \<and> ((\<forall>cp. ctx_Err E cp = None) \<longrightarrow>
            (\<exists>e. client_Do E MaxRetries (cond_request GET url None) = Inl e
                  \<and> fst (Download E url None) = Returns (Inl e)))"
proof -
  have g: "\<And>n u c. isl (client_Do E n (cond_request GET u c))"
    by (rule assms) simp
  have 1: "fst (Download E url (Some c)) = Returns (Inr (Stats c, ETag c, LastModified c))"
    by (rule Download_cached_all_fail) (rule g)
  have 2: "\<exists>e. fst (GetRequestWithRetry E url None) = Inl e
                \<and> fst (Download E url None) = Returns (Inl e)"
    by (rule Download_no_cache_all_fail) (rule g)
  have 3: "fst (AnalyzeWithCache L E cfg files) = Returns (Inr (Stats c'))"
    if "lock_err E = None" "retained L E cfg files = Some c'"
  proof -
    have "fst (Download E (BaseURL (cfgArchitecture cfg)) (Some c'))
            = Returns (Inr (Stats c', ETag c', LastModified c'))"
      by (rule Download_cached_all_fail) (rule g)
    then show ?thesis
      using that by (auto simp: Analyze_locked split: option.splits dest: recent_stats_Some)
  qed
  have 4: "\<exists>e. fst (GetRequestWithRetry E (BaseURL (cfgArchitecture cfg)) None) = Inl e
                  \<and> fst (AnalyzeWithCache L E cfg files) = Returns (Inl e)"
    if "lock_err E = None" "retained L E cfg files = None"
  proof -
    from Download_no_cache_all_fail [of E "BaseURL (cfgArchitecture cfg)"] g
    obtain e where "fst (GetRequestWithRetry E (BaseURL (cfgArchitecture cfg)) None) = Inl e"
      "fst (Download E (BaseURL (cfgArchitecture cfg)) None) = Returns (Inl e)" by blast
    then show ?thesis using that by (auto simp: Analyze_locked)
  qed
  have 5: "\<exists>e. client_Do E MaxRetries (cond_request GET url None) = Inl e
                  \<and> fst (Download E url None) = Returns (Inl e)"
    if "\<forall>cp. ctx_Err E cp = None"
  proof -
    have "fst (GetRequestWithRetry E url None) = client_Do E MaxRetries (cond_request GET url None)"
      unfolding GetRequestWithRetry_def
      by (rule retry_from_no_cancel) (use g that in \<open>simp_all add: MaxRetries_def\<close>)
    moreover have "isl (client_Do E MaxRetries (cond_request GET url None))" by (rule g)
    ultimately show ?thesis by (auto simp: Download_no_cache isl_def)
  qed
  from 1 2 3 4 5 show ?thesis by blast
qed





lemma Download_after_get:
  assumes "head_hit (HeadRequest E url cached) cached = None"
    and "fst (GetRequestWithRetry E url cached) = Inr resp"
  shows "fst (Download E url cached) = read_response E url cached resp"
  using assms by (simp add: Download_def case_prod_beta)












subsection \<open>Evaluation of the reference instance on the concrete inputs\<close>

lemma ref_cached_entry:
  "ref_Marshal (Stats cached_entry) = Inr ''[{\"name\":\"cached-pkg\",\"file_count\":100}]''"
  "ref_Encode cached_entry = Inr cached_doc"
  "ref_Unmarshal cached_doc = Some cached_entry"
  by code_simp+

lemma ref_empty_entry:
  "ref_Marshal [] = Inr ''[]''"
  "ref_Encode empty_entry = Inr empty_doc"
  "ref_Unmarshal empty_doc = Some empty_entry"
  by code_simp+

lemma ref_invalid: "ref_Unmarshal ''invalid json'' = None"
  by code_simp

lemma md5_examples:
  "Sprintf_x (md5_Sum ''[{\"name\":\"cached-pkg\",\"file_count\":100}]'')
     = ''29fc38211c94892cf9b75b8d39328e18''"
  "Sprintf_x (md5_Sum ''[]'') = ''d751713988987e9331980363e24189ce''"
  by code_simp+


lemmas clock_defs = Since_def Sub_def maxDuration_def minDuration_def Hour_def t0_def

lemma paths_differ [simp]:
  "lockFile cfg \<noteq> cacheFile cfg"
  "cacheFile cfg \<noteq> lockFile cfg"
  "cacheFile cfg @ ''.tmp'' \<noteq> cacheFile cfg"
  "cacheFile cfg \<noteq> cacheFile cfg @ ''.tmp''"
  by (simp_all add: lockFile_def)

lemma retained_cached:
  "retained ref_json (env0 srv) cfg0 [cacheFile cfg0 \<mapsto> cached_doc] = Some cached_entry"
  by (simp add: retained_def load_cached_def LoadCache_def lock_created_def
        CleanupStaleLock_def env0_def ref_json_def ref_cached_entry cached_entry_def
        cfg0_def clock_defs)

lemma retained_none:
  "retained ref_json (env0 srv) cfg0 Map.empty = None"
  by (simp add: retained_def load_cached_def LoadCache_def lock_created_def
        CleanupStaleLock_def env0_def cfg0_def)

lemma rename_no_faults: "rename_attempts (\<lambda>i. False) 0 5"
  by (simp add: eval_nat_numeral)

theorem LoadCache_corrupt_heals_witness:
  "[''corrupt.json'' \<mapsto> ''invalid json''] ''corrupt.json'' = Some ''invalid json''
   \<and> json_Unmarshal ref_json ''invalid json'' = None
   \<and> LoadCache ref_json t0 ''corrupt.json'' Hour [''corrupt.json'' \<mapsto> ''invalid json'']
        = (Inl CorruptCacheRemoved, [''corrupt.json'' \<mapsto> ''invalid json''](''corrupt.json'' := None))
   \<and> LoadCache ref_json t0 ''corrupt.json'' Hour
          ([''corrupt.json'' \<mapsto> ''invalid json''](''corrupt.json'' := None))
        = (Inl ErrNotExist, [''corrupt.json'' \<mapsto> ''invalid json''](''corrupt.json'' := None))"
proof -
  have a: "[''corrupt.json'' \<mapsto> ''invalid json''] ''corrupt.json'' = Some ''invalid json''"
    by simp
  have b: "json_Unmarshal ref_json ''invalid json'' = None"
    by (simp add: ref_json_def ref_invalid)
  show ?thesis
    using a b
      LoadCache_corrupt_heals [of "[''corrupt.json'' \<mapsto> ''invalid json'']"
        "''corrupt.json''" "''invalid json''" ref_json t0 Hour t0 Hour, OF a b]
    by blast
qed

theorem LoadCache_expired_keeps_file_witness:
  "[cacheFile cfg0 \<mapsto> cached_doc] (cacheFile cfg0) = Some cached_doc
   \<and> json_Unmarshal ref_json cached_doc = Some cached_entry
   \<and> Since (t0 + 25 * Hour) (Timestamp cached_entry) > CacheTTL cfg0
   \<and> LoadCache ref_json (t0 + 25 * Hour) (cacheFile cfg0) (CacheTTL cfg0)
        [cacheFile cfg0 \<mapsto> cached_doc]
        = (Inl CacheExpired, [cacheFile cfg0 \<mapsto> cached_doc])"
proof -
  have a: "[cacheFile cfg0 \<mapsto> cached_doc] (cacheFile cfg0) = Some cached_doc"
    by simp
  have b: "json_Unmarshal ref_json cached_doc = Some cached_entry"
    by (simp add: ref_json_def ref_cached_entry)
  have c: "Since (t0 + 25 * Hour) (Timestamp cached_entry) > CacheTTL cfg0"
    by (simp add: cached_entry_def cfg0_def clock_defs)
  show ?thesis
    using a b c
      LoadCache_expired_keeps_file [of "[cacheFile cfg0 \<mapsto> cached_doc]"
        "cacheFile cfg0" cached_doc, OF a b disjI1, OF c]
    by blast
qed

theorem SaveCache_LoadCache_roundtrip_witness:
  "json_Marshal ref_json (Stats (cached_entry\<lparr>Checksum := []\<rparr>))
     = Inr ''[{\"name\":\"cached-pkg\",\"file_count\":100}]''
   \<and> cached_entry\<lparr>Checksum := []\<rparr>
        \<lparr>Checksum := Sprintf_x (md5_Sum ''[{\"name\":\"cached-pkg\",\"file_count\":100}]'')\<rparr>
       = cached_entry
   \<and> json_roundtrips ref_json cached_entry
   \<and> no_io_fault no_faults
   \<and> Since (t0 + 2 * Hour) (Timestamp (cached_entry\<lparr>Checksum := []\<rparr>)) \<le> CacheTTL cfg0
   \<and> (\<exists>files'.
         SaveCache ref_json no_faults (cacheFile cfg0) (cached_entry\<lparr>Checksum := []\<rparr>)
             Map.empty
           = (None, cached_entry, files')
         \<and> LoadCache ref_json (t0 + 2 * Hour) (cacheFile cfg0) (CacheTTL cfg0) files'
             = (Inr cached_entry, files'))"
proof -
  let ?data = "''[{\"name\":\"cached-pkg\",\"file_count\":100}]''"
  have a: "json_Marshal ref_json (Stats (cached_entry\<lparr>Checksum := []\<rparr>)) = Inr ?data"
    using ref_cached_entry(1) by (simp add: ref_json_def)
  have e: "cached_entry\<lparr>Checksum := []\<rparr>\<lparr>Checksum := Sprintf_x (md5_Sum ?data)\<rparr>
             = cached_entry"
    by (simp add: md5_examples cached_entry_def)
  have b: "json_roundtrips ref_json
             (cached_entry\<lparr>Checksum := []\<rparr>\<lparr>Checksum := Sprintf_x (md5_Sum ?data)\<rparr>)"
    unfolding e by (simp add: json_roundtrips_def ref_json_def ref_cached_entry)
  have f: "no_io_fault no_faults"
    by (simp add: no_io_fault_def no_faults_def rename_no_faults)
  have c: "Since (t0 + 2 * Hour) (Timestamp (cached_entry\<lparr>Checksum := []\<rparr>)) \<le> CacheTTL cfg0"
    by (simp add: cached_entry_def cfg0_def clock_defs)
  show ?thesis
    using a e b f c
      SaveCache_LoadCache_roundtrip [OF a b f c, of "cacheFile cfg0" Map.empty]
    unfolding e by blast
qed

lemma rename_all_fail: "\<not> rename_attempts (\<lambda>i. True) 0 5"
  by (simp add: eval_nat_numeral)

theorem SaveCache_checksum_assigned_witness:
  "json_Marshal ref_json (Stats \<lparr>Architecture = ''amd64'', Stats = [], Timestamp = 0,
        ETag = [], LastModified = [], URL = [], Checksum = []\<rparr>) = Inr ''[]''
   \<and> json_Marshal ref_json (Stats (cached_entry\<lparr>Checksum := []\<rparr>))
        = Inr ''[{\"name\":\"cached-pkg\",\"file_count\":100}]''
   \<and> fst (SaveCache ref_json (no_faults\<lparr>rename_fails := (\<lambda>i. True)\<rparr>) (cacheFile cfg0)
             (cached_entry\<lparr>Checksum := []\<rparr>) Map.empty)
        = Some (RenameFailed (cacheFile cfg0))
   \<and> fst (snd (SaveCache ref_json (no_faults\<lparr>rename_fails := (\<lambda>i. True)\<rparr>) (cacheFile cfg0)
             (cached_entry\<lparr>Checksum := []\<rparr>) Map.empty))
        = cached_entry\<lparr>Checksum := ''29fc38211c94892cf9b75b8d39328e18''\<rparr>
   \<and> SaveCache ref_json (no_faults\<lparr>create_err := Some (LibError ''no such file or directory'')\<rparr>)
        ''/invalid/path/cache.json''
        \<lparr>Architecture = ''amd64'', Stats = [], Timestamp = 0,
         ETag = [], LastModified = [], URL = [], Checksum = []\<rparr> Map.empty
       = (Some (LibError ''no such file or directory''),
          \<lparr>Architecture = ''amd64'', Stats = [], Timestamp = 0,
           ETag = [], LastModified = [], URL = [],
           Checksum = ''d751713988987e9331980363e24189ce''\<rparr>, Map.empty)"
proof -
  have a: "json_Marshal ref_json (Stats \<lparr>Architecture = ''amd64'', Stats = [], Timestamp = 0,
        ETag = [], LastModified = [], URL = [], Checksum = []\<rparr>) = Inr ''[]''"
    by (simp add: ref_json_def ref_empty_entry)
  let ?data = "''[{\"name\":\"cached-pkg\",\"file_count\":100}]''"
  have b: "json_Marshal ref_json (Stats (cached_entry\<lparr>Checksum := []\<rparr>)) = Inr ?data"
    using ref_cached_entry(1) by (simp add: ref_json_def)
  have u: "cached_entry\<lparr>Checksum := ''29fc38211c94892cf9b75b8d39328e18''\<rparr> = cached_entry"
    by (simp add: cached_entry_def)
  have c: "fst (SaveCache ref_json (no_faults\<lparr>rename_fails := (\<lambda>i. True)\<rparr>) (cacheFile cfg0)
             (cached_entry\<lparr>Checksum := []\<rparr>) Map.empty)
        = Some (RenameFailed (cacheFile cfg0))"
    by (simp add: SaveCache_def ref_json_def ref_cached_entry md5_examples u no_faults_def
          rename_all_fail)
  show ?thesis
    using a b c SaveCache_checksum_assigned [OF a,
        of "no_faults\<lparr>create_err := Some (LibError ''no such file or directory'')\<rparr>"
           "''/invalid/path/cache.json''" Map.empty "LibError ''no such file or directory''"]
      SaveCache_checksum_assigned [OF b, of "no_faults\<lparr>rename_fails := (\<lambda>i. True)\<rparr>"
           "cacheFile cfg0" Map.empty]
    by (simp add: md5_examples no_faults_def)
qed

subsection \<open>Runs of the fetcher and the orchestrator on the concrete inputs\<close>



lemma render_examples:
  "render \<lparr>Total = 64, Curr = 64\<rparr> = Returns ()"
  "render \<lparr>Total = - 1, Curr = 64\<rparr> = Panics"
  by code_simp+


lemma first_get_answered:
  assumes "ctx_Err E (AtRetry 0) = None"
    and "client_Do E (Suc 0) (cond_request GET url cached) = Inr resp"
  shows "GetRequestWithRetry E url cached = (Inr resp, [cond_request GET url cached])"
  using assms
  by (simp add: GetRequestWithRetry_def retry_from.simps [of E url cached 0 None] MaxRetries_def)

lemma env0_fields [simp]:
  "client_Do (env0 srv) = srv"
  "ctx_Err (env0 srv) cp = None"
  "lock_err (env0 srv) = None"
  "now_window (env0 srv) = t0 + 2 * Hour"
  "now_entry (env0 srv) = t0 + 2 * Hour"
  "faults (env0 srv) = no_faults"
  "lock_stale (env0 srv) = False"
  "now_load (env0 srv) = t0 + 2 * Hour"
  "range_keys (env0 srv) m = filter (\<lambda>k. m k \<noteq> None) [''pkg1'', ''pkg2'', ''pkg3'']"
  by (simp_all add: env0_def)

lemma cfg0_fields [simp]:
  "ForceRefresh cfg0 = False"
  "CacheTTL cfg0 = 24 * Hour"
  "ShortCacheWindow cfg0 = Hour"
  by (simp_all add: cfg0_def)

lemma ref_json_fields [simp]:
  "json_Marshal ref_json = ref_Marshal"
  "json_Encode ref_json = ref_Encode"
  "json_Unmarshal ref_json = ref_Unmarshal"
  by (simp_all add: ref_json_def)

lemma url_amd64 [simp]: "BaseURL (cfgArchitecture cfg0) = BaseURL ''amd64''"
  by (simp add: cfg0_def)

lemma reply_fields [simp]:
  "status (reply st tag ls) = st"
  "content_length (reply st tag ls) = 64"
  "hdr_etag (reply st tag ls) = tag"
  "hdr_lastmod (reply st tag ls) = []"
  "header_reads (resp_body (reply st tag ls))
     = [\<lparr>nbytes = 64, at_EOF = False, render_due = False\<rparr>]"
  "gzip_err (resp_body (reply st tag ls)) = None"
  "scans (resp_body (reply st tag ls)) = map (\<lambda>l. ([], l)) ls"
  "last_reads (resp_body (reply st tag ls))
     = [\<lparr>nbytes = 0, at_EOF = True, render_due = False\<rparr>]"
  "scan_err (resp_body (reply st tag ls)) = None"
  by (simp_all add: reply_def)

lemma retained_any:
  "retained ref_json E cfg0 Map.empty = None"
  "lock_stale E = False \<Longrightarrow> now_load E = t0 + 2 * Hour \<Longrightarrow>
     retained ref_json E cfg0 [cacheFile cfg0 \<mapsto> cached_doc] = Some cached_entry"
  by (simp_all add: retained_def load_cached_def LoadCache_def lock_created_def
        CleanupStaleLock_def ref_cached_entry cached_entry_def clock_defs)

lemma not_recent:
  "now_window E = t0 + 2 * Hour \<Longrightarrow> recent_stats E cfg0 (Some cached_entry) = None"
  by (simp add: recent_stats_def cached_entry_def clock_defs)

















theorem Download_probe_unchanged_witness:
  "HeadRequest (env0 srv_304) (BaseURL ''amd64'') (Some cached_entry) = Inr (reply 304 ''v2'' [])
   \<and> status (reply 304 ''v2'' []) = 304
   \<and> Download (env0 srv_304) (BaseURL ''amd64'') (Some cached_entry)
        = (Returns (Inr ([\<lparr>Name = ''cached-pkg'', FileCount = 100\<rparr>], ''v1'',
                         ''Sat, 31 Oct 2026 00:00:00 GMT'')),
           [cond_request HEAD (BaseURL ''amd64'') (Some cached_entry)])
   \<and> GET \<notin> meth ` set (snd (Download (env0 srv_304) (BaseURL ''amd64'') (Some cached_entry)))
   \<and> HeadRequest (env0 srv_same) (BaseURL ''amd64'') (Some cached_entry)
        = Inr ((reply 200 ''v1'' [])\<lparr>hdr_lastmod := ''Sat, 31 Oct 2026 00:00:00 GMT''\<rparr>)
   \<and> Download (env0 srv_same) (BaseURL ''amd64'') (Some cached_entry)
        = (Returns (Inr ([\<lparr>Name = ''cached-pkg'', FileCount = 100\<rparr>], ''v1'',
                         ''Sat, 31 Oct 2026 00:00:00 GMT'')),
           [cond_request HEAD (BaseURL ''amd64'') (Some cached_entry)])"
proof -
  let ?h = "(reply 200 ''v1'' [])\<lparr>hdr_lastmod := ''Sat, 31 Oct 2026 00:00:00 GMT''\<rparr>"
  have a': "HeadRequest (env0 srv_same) (BaseURL ''amd64'') (Some cached_entry) = Inr ?h"
    by (simp add: HeadRequest_def srv_same_def)
  have b': "hdr_etag ?h = ETag cached_entry \<and> hdr_lastmod ?h = LastModified cached_entry"
    by (simp add: reply_def cached_entry_def)
  have a: "HeadRequest (env0 srv_304) (BaseURL ''amd64'') (Some cached_entry)
             = Inr (reply 304 ''v2'' [])"
    by (simp add: HeadRequest_def srv_304_def)
  have b: "status (reply 304 ''v2'' []) = 304"
    by (simp add: reply_def)
  have c: "Stats cached_entry = [\<lparr>Name = ''cached-pkg'', FileCount = 100\<rparr>]"
          "ETag cached_entry = ''v1''"
          "LastModified cached_entry = ''Sat, 31 Oct 2026 00:00:00 GMT''"
    by (simp_all add: cached_entry_def)
  show ?thesis
    using a b a' Download_probe_unchanged [OF a disjI1, OF b]
      Download_probe_unchanged [OF a' disjI2, OF b']
    unfolding c by blast
qed

theorem transport_failure_falls_back_witness:
  "(\<forall>n req. isl (client_Do (env0 srv_unreachable) n req))
   \<and> fst (Download (env0 srv_unreachable) (BaseURL ''amd64'') (Some cached_entry))
        = Returns (Inr ([\<lparr>Name = ''cached-pkg'', FileCount = 100\<rparr>], ''v1'',
                        ''Sat, 31 Oct 2026 00:00:00 GMT''))
   \<and> fst (Download (env0 srv_unreachable) (BaseURL ''amd64'') None)
        = Returns (Inl (LibError ''dial tcp: connection refused''))
   \<and> retained ref_json (env0 srv_unreachable) cfg0 [cacheFile cfg0 \<mapsto> cached_doc]
        = Some cached_entry
   \<and> fst (AnalyzeWithCache ref_json (env0 srv_unreachable) cfg0 [cacheFile cfg0 \<mapsto> cached_doc])
        = Returns (Inr [\<lparr>Name = ''cached-pkg'', FileCount = 100\<rparr>])
   \<and> retained ref_json (env0 srv_unreachable) cfg0 Map.empty = None
   \<and> fst (AnalyzeWithCache ref_json (env0 srv_unreachable) cfg0 Map.empty)
        = Returns (Inl (LibError ''dial tcp: connection refused''))"
proof -
  have a: "\<And>n req. meth req = GET \<Longrightarrow> isl (client_Do (env0 srv_unreachable) n req)"
    by (simp add: srv_unreachable_def)
  have a': "\<forall>n req. isl (client_Do (env0 srv_unreachable) n req)"
    by (simp add: srv_unreachable_def)
  have c: "Stats cached_entry = [\<lparr>Name = ''cached-pkg'', FileCount = 100\<rparr>]"
          "ETag cached_entry = ''v1''"
          "LastModified cached_entry = ''Sat, 31 Oct 2026 00:00:00 GMT''"
    by (simp_all add: cached_entry_def)
  have d: "client_Do (env0 srv_unreachable) n req = Inl (LibError ''dial tcp: connection refused'')"
    for n req
    by (simp add: srv_unreachable_def)
  have n: "\<forall>cp. ctx_Err (env0 srv_unreachable) cp = None" "lock_err (env0 srv_unreachable) = None"
    by simp_all
  note t = transport_failure_falls_back [OF a, of "BaseURL ''amd64''" cached_entry ref_json cfg0]
  show ?thesis
    using a' n d retained_cached [of srv_unreachable] retained_none [of srv_unreachable]
      t [of "[cacheFile cfg0 \<mapsto> cached_doc]" cached_entry]
      t [of Map.empty cached_entry]
    unfolding c by (auto simp del: env0_fields(1))
qed



text \<open>
  A response that does not announce its length. The display is drawn when the body
  ends, with a total of -1, and panics; so do \<open>Download\<close> and the invocation, also
  when a cache record was retained.
\<close>

lemma unknown_length_panics:
  "fst (Download (env0 srv_unknown_length) (BaseURL ''amd64'') None) = Panics"
  "fst (AnalyzeWithCache ref_json (env0 srv_unknown_length) cfg0 [cacheFile cfg0 \<mapsto> cached_doc])
     = Panics"
proof -
  have r: "read_response (env0 srv_unknown_length) (BaseURL ''amd64'') cached reply_unknown_length
             = Panics" for cached
    by (simp add: read_response_def reply_unknown_length_def Read_def render_examples
          ProcessLine_example)
  have g: "fst (GetRequestWithRetry (env0 srv_unknown_length) (BaseURL ''amd64'') cached)
             = Inr reply_unknown_length" for cached
    using first_get_answered [of "env0 srv_unknown_length" "BaseURL ''amd64''" cached
        reply_unknown_length]
    by (simp add: srv_unknown_length_def)
  show "fst (Download (env0 srv_unknown_length) (BaseURL ''amd64'') None) = Panics"
    by (simp add: Download_no_cache g r)
  have h: "head_hit (HeadRequest (env0 srv_unknown_length) (BaseURL ''amd64'') (Some cached_entry))
             (Some cached_entry) = None"
    by (simp add: head_hit_def HeadRequest_def srv_unknown_length_def reply_unknown_length_def
          cached_entry_def)
  have "fst (Download (env0 srv_unknown_length) (BaseURL ''amd64'') (Some cached_entry)) = Panics"
    by (simp add: Download_after_get [OF h g] r)
  then show "fst (AnalyzeWithCache ref_json (env0 srv_unknown_length) cfg0
                    [cacheFile cfg0 \<mapsto> cached_doc]) = Panics"
    by (simp add: Analyze_locked retained_any not_recent)
qed


end
